theory Spec2Isabelle
  imports Main "HOL-Library.Word" "HOL-Library.Log_Nat"
begin

section \<open>Solidity value types, reverts and events\<close>

text \<open>
  The ledger of AppBound is the pair of contracts in
  \<^verbatim>\<open>contracts/AppBoundLicense.sol\<close>: \<^verbatim>\<open>AppBoundLicense\<close> and
  \<^verbatim>\<open>CollectibleLicenseNFT\<close>. Fixed-width Solidity integers are machine words;
  the compiler (pragma 0.8.21) checks arithmetic, so an overflowing \<^verbatim>\<open>++\<close> reverts.
  A \<^verbatim>\<open>string\<close> is its byte sequence. A mapping is a total function whose default
  value is zero, as in the EVM.
\<close>

type_synonym address = "160 word"
type_synonym uint256 = "256 word"
type_synonym bytes32 = "256 word"
type_synonym uint64 = "64 word"
type_synonym uint96 = "96 word"

text \<open>
  Every \<^verbatim>\<open>require\<close> of the contracts and of the OpenZeppelin 4.x base contracts
  they call is one constructor; the revert string is given beside it.
\<close>

datatype error =
    Unauthorized              \<comment> \<open>\<^verbatim>\<open>onlyOwner\<close>, \<^verbatim>\<open>onlyRole\<close>\<close>
  | DuplicateLicense          \<comment> \<open>"ALREADY_OWN_THIS_APP", "User already owns this app"\<close>
  | NotOwner                  \<comment> \<open>"NOT_OWNER", "Not owner"\<close>
  | SoulboundLocked           \<comment> \<open>"Token is soulbound"\<close>
  | NotEphemeral              \<comment> \<open>"Not ephemeral"\<close>
  | AlreadyRedeemed           \<comment> \<open>"Already redeemed"\<close>
  | CapacityExceeded          \<comment> \<open>"Max supply reached"\<close>
  | ArityMismatch             \<comment> \<open>"Array length mismatch"\<close>
  | OpenMintingDisabled       \<comment> \<open>"Open minting disabled"\<close>
  | NotAllowlisted            \<comment> \<open>"Not allowlisted"\<close>
  | InvalidTokenId            \<comment> \<open>"ERC721: invalid token ID"\<close>
  | MintToZeroAddress         \<comment> \<open>"ERC721: mint to the zero address"\<close>
  | TokenAlreadyMinted        \<comment> \<open>"ERC721: token already minted"\<close>
  | NonReceiver               \<comment> \<open>"ERC721: transfer to non ERC721Receiver implementer"\<close>
  | TransferFromIncorrectOwner \<comment> \<open>"ERC721: transfer from incorrect owner"\<close>
  | TransferToZeroAddress     \<comment> \<open>"ERC721: transfer to the zero address"\<close>
  | CallerNotApproved         \<comment> \<open>"ERC721: caller is not token owner or approved"\<close>
  | ApprovalToCurrentOwner    \<comment> \<open>"ERC721: approval to current owner"\<close>
  | ApproveCallerNotOwner     \<comment> \<open>"ERC721: approve caller is not token owner or approved for all"\<close>
  | ApproveToCaller           \<comment> \<open>"ERC721: approve to caller"\<close>
  | NonexistentToken          \<comment> \<open>"ERC721URIStorage: URI set of nonexistent token"\<close>
  | RoyaltyFeeTooHigh         \<comment> \<open>"ERC2981: royalty fee will exceed salePrice"\<close>
  | InvalidRoyaltyReceiver    \<comment> \<open>"ERC2981: invalid receiver", "ERC2981: Invalid parameters"\<close>
  | NewOwnerIsZero            \<comment> \<open>"Ownable: new owner is the zero address"\<close>
  | Panic                     \<comment> \<open>checked arithmetic overflow\<close>

datatype event =
    Transfer address address uint256
  | LicenseMinted address uint256 string uint64
  | LicenseBurned address uint256
  | Redeemed address uint256

text \<open>
  What the contracts take from the chain: the hash function, the Merkle proof check of
  OpenZeppelin's \<^verbatim>\<open>MerkleProof.verify\<close> (proof, root, leaf), and which addresses pass
  \<^verbatim>\<open>_checkOnERC721Received\<close> (every externally owned account does; a contract does when
  its \<^verbatim>\<open>onERC721Received\<close> answers with the selector). The receiver callback is taken
  not to call back into the ledger: the ledger host serialises operations.
\<close>

record host =
  keccak256 :: "string \<Rightarrow> bytes32"
  MerkleProof_verify :: "bytes32 list \<Rightarrow> bytes32 \<Rightarrow> bytes32 \<Rightarrow> bool"
  acceptsERC721 :: "address \<Rightarrow> bool"

text \<open>\<^verbatim>\<open>abi.encodePacked(address)\<close>: the twenty bytes of the address, big-endian.\<close>

definition encodePacked :: "address \<Rightarrow> string" where
  "encodePacked a = map (\<lambda>i. char_of (unat (drop_bit (8 * (19 - i)) a))) [0..<20]"

text \<open>Checked pre-increment \<^verbatim>\<open>++x\<close> on \<^verbatim>\<open>uint256\<close>.\<close>

definition increment :: "uint256 \<Rightarrow> error + uint256" where
  "increment x = (if x = - 1 then Inl Panic else Inr (x + 1))"

section \<open>The ERC-721 base contract\<close>

text \<open>
  The part of OpenZeppelin's \<^verbatim>\<open>ERC721\<close> and \<^verbatim>\<open>ERC721URIStorage\<close> (release 4.x,
  the one whose hooks the contracts override) that the ledger runs on: the owner table,
  approvals, token URIs and the log. Balances, the enumeration arrays of
  \<^verbatim>\<open>ERC721Enumerable\<close>, ERC-165 and the \<^verbatim>\<open>Approval\<close> events are left out: no
  function of the two contracts reads them. The virtual hook
  \<^verbatim>\<open>_beforeTokenTransfer\<close> is a parameter, supplied by each contract.
\<close>

record erc721 =
  owners :: "uint256 \<Rightarrow> address"
  tokenApprovals :: "uint256 \<Rightarrow> address"
  operatorApprovals :: "address \<Rightarrow> address \<Rightarrow> bool"
  tokenURIs :: "uint256 \<Rightarrow> string"
  events :: "event list"

type_synonym 's hook = "'s \<Rightarrow> address \<Rightarrow> address \<Rightarrow> uint256 \<Rightarrow> error + 's"

definition exists_token :: "'a erc721_scheme \<Rightarrow> uint256 \<Rightarrow> bool" where
  "exists_token s tokenId = (owners s tokenId \<noteq> 0)"

definition ownerOf :: "'a erc721_scheme \<Rightarrow> uint256 \<Rightarrow> error + address" where
  "ownerOf s tokenId =
     (if owners s tokenId = 0 then Inl InvalidTokenId else Inr (owners s tokenId))"

definition tokenURI :: "'a erc721_scheme \<Rightarrow> uint256 \<Rightarrow> error + string" where
  "tokenURI s tokenId =
     (if \<not> exists_token s tokenId then Inl InvalidTokenId else Inr (tokenURIs s tokenId))"

definition setTokenURI :: "'a erc721_scheme \<Rightarrow> uint256 \<Rightarrow> string \<Rightarrow> error + 'a erc721_scheme" where
  "setTokenURI s tokenId uri =
     (if \<not> exists_token s tokenId then Inl NonexistentToken
      else Inr (s\<lparr>tokenURIs := (tokenURIs s)(tokenId := uri)\<rparr>))"

definition isApprovedOrOwner :: "'a erc721_scheme \<Rightarrow> address \<Rightarrow> uint256 \<Rightarrow> error + bool" where
  "isApprovedOrOwner s spender tokenId =
     (case ownerOf s tokenId of
        Inl e \<Rightarrow> Inl e
      | Inr owner \<Rightarrow>
          Inr (spender = owner \<or> operatorApprovals s owner spender
               \<or> tokenApprovals s tokenId = spender))"

definition approve :: "'a erc721_scheme \<Rightarrow> address \<Rightarrow> address \<Rightarrow> uint256 \<Rightarrow> error + 'a erc721_scheme" where
  "approve s sender to tokenId =
     (case ownerOf s tokenId of
        Inl e \<Rightarrow> Inl e
      | Inr owner \<Rightarrow>
          if to = owner then Inl ApprovalToCurrentOwner
          else if \<not> (sender = owner \<or> operatorApprovals s owner sender)
            then Inl ApproveCallerNotOwner
          else Inr (s\<lparr>tokenApprovals := (tokenApprovals s)(tokenId := to)\<rparr>))"

definition setApprovalForAll :: "'a erc721_scheme \<Rightarrow> address \<Rightarrow> address \<Rightarrow> bool \<Rightarrow> error + 'a erc721_scheme" where
  "setApprovalForAll s sender operator approved =
     (if sender = operator then Inl ApproveToCaller
      else Inr (s\<lparr>operatorApprovals :=
                  (operatorApprovals s)(sender := (operatorApprovals s sender)(operator := approved))\<rparr>))"

definition mint :: "'a erc721_scheme hook \<Rightarrow> 'a erc721_scheme \<Rightarrow> address \<Rightarrow> uint256 \<Rightarrow> error + 'a erc721_scheme" where
  "mint beforeHook s to tokenId =
     (if to = 0 then Inl MintToZeroAddress
      else if exists_token s tokenId then Inl TokenAlreadyMinted
      else
        (case beforeHook s 0 to tokenId of
           Inl e \<Rightarrow> Inl e
         | Inr s1 \<Rightarrow>
             if exists_token s1 tokenId then Inl TokenAlreadyMinted
             else Inr (s1\<lparr>owners := (owners s1)(tokenId := to),
                          events := events s1 @ [Transfer 0 to tokenId]\<rparr>)))"

definition safeMint :: "host \<Rightarrow> 'a erc721_scheme hook \<Rightarrow> 'a erc721_scheme \<Rightarrow> address \<Rightarrow> uint256 \<Rightarrow> error + 'a erc721_scheme" where
  "safeMint h beforeHook s to tokenId =
     (case mint beforeHook s to tokenId of
        Inl e \<Rightarrow> Inl e
      | Inr s1 \<Rightarrow> if acceptsERC721 h to then Inr s1 else Inl NonReceiver)"

definition transfer :: "'a erc721_scheme hook \<Rightarrow> 'a erc721_scheme \<Rightarrow> address \<Rightarrow> address \<Rightarrow> uint256 \<Rightarrow> error + 'a erc721_scheme" where
  "transfer beforeHook s from to tokenId =
     (case ownerOf s tokenId of
        Inl e \<Rightarrow> Inl e
      | Inr owner \<Rightarrow>
          if owner \<noteq> from then Inl TransferFromIncorrectOwner
          else if to = 0 then Inl TransferToZeroAddress
          else
            (case beforeHook s from to tokenId of
               Inl e \<Rightarrow> Inl e
             | Inr s1 \<Rightarrow>
                (case ownerOf s1 tokenId of
                   Inl e \<Rightarrow> Inl e
                 | Inr owner1 \<Rightarrow>
                     if owner1 \<noteq> from then Inl TransferFromIncorrectOwner
                     else Inr (s1\<lparr>owners := (owners s1)(tokenId := to),
                                  tokenApprovals := (tokenApprovals s1)(tokenId := 0),
                                  events := events s1 @ [Transfer from to tokenId]\<rparr>))))"

definition transferFrom :: "'a erc721_scheme hook \<Rightarrow> 'a erc721_scheme \<Rightarrow> address \<Rightarrow> address \<Rightarrow> address \<Rightarrow> uint256 \<Rightarrow> error + 'a erc721_scheme" where
  "transferFrom beforeHook s sender from to tokenId =
     (case isApprovedOrOwner s sender tokenId of
        Inl e \<Rightarrow> Inl e
      | Inr ok \<Rightarrow>
          if \<not> ok then Inl CallerNotApproved
          else transfer beforeHook s from to tokenId)"

definition safeTransferFrom :: "host \<Rightarrow> 'a erc721_scheme hook \<Rightarrow> 'a erc721_scheme \<Rightarrow> address \<Rightarrow> address \<Rightarrow> address \<Rightarrow> uint256 \<Rightarrow> error + 'a erc721_scheme" where
  "safeTransferFrom h beforeHook s sender from to tokenId =
     (case transferFrom beforeHook s sender from to tokenId of
        Inl e \<Rightarrow> Inl e
      | Inr s1 \<Rightarrow> if acceptsERC721 h to then Inr s1 else Inl NonReceiver)"

text \<open>\<^verbatim>\<open>ERC721URIStorage._burn\<close>: \<^verbatim>\<open>ERC721._burn\<close>, then the stored URI is deleted.\<close>

definition burnToken :: "'a erc721_scheme hook \<Rightarrow> 'a erc721_scheme \<Rightarrow> uint256 \<Rightarrow> error + 'a erc721_scheme" where
  "burnToken beforeHook s tokenId =
     (case ownerOf s tokenId of
        Inl e \<Rightarrow> Inl e
      | Inr owner \<Rightarrow>
         (case beforeHook s owner 0 tokenId of
            Inl e \<Rightarrow> Inl e
          | Inr s1 \<Rightarrow>
             (case ownerOf s1 tokenId of
                Inl e \<Rightarrow> Inl e
              | Inr owner1 \<Rightarrow>
                  Inr (s1\<lparr>owners := (owners s1)(tokenId := 0),
                          tokenApprovals := (tokenApprovals s1)(tokenId := 0),
                          tokenURIs := (tokenURIs s1)(tokenId := []),
                          events := events s1 @ [Transfer owner1 0 tokenId]\<rparr>))))"

section \<open>State shared by the two contracts\<close>

text \<open>
  Both contracts declare \<^verbatim>\<open>nextTokenId\<close>, \<^verbatim>\<open>licenses\<close> and \<^verbatim>\<open>userAppToken\<close>
  (the ownership index, keyed by owner and by the hash of the application id); the
  \<^verbatim>\<open>License\<close> struct of the second contract has two more fields.
\<close>

record License =
  appId :: string
  expiry :: uint64

record CollectibleLicense = License +
  soulbound :: bool
  ephemeral :: bool

record 'l ledger = erc721 +
  nextTokenId :: uint256
  licenses :: "uint256 \<Rightarrow> 'l"
  userAppToken :: "address \<Rightarrow> bytes32 \<Rightarrow> uint256"

section \<open>CollectibleLicenseNFT\<close>

datatype role = DEFAULT_ADMIN_ROLE | MINTER_ROLE

text \<open>
  The storage of \<^verbatim>\<open>CollectibleLicenseNFT\<close>. \<^verbatim>\<open>roles\<close> is the role table of
  \<^verbatim>\<open>AccessControl\<close>; \<^verbatim>\<open>defaultRoyalty\<close> and \<^verbatim>\<open>tokenRoyalty\<close> are the tables
  of \<^verbatim>\<open>ERC2981\<close>. \<^verbatim>\<open>MAX_SUPPLY\<close> is immutable: no function writes it. The status
  word of \<^verbatim>\<open>ReentrancyGuard\<close> is left out: every call below is an outermost call, for
  which \<^verbatim>\<open>nonReentrant\<close> does not revert.
\<close>

record collectible = "CollectibleLicense ledger" +
  redeemed :: "uint256 \<Rightarrow> bool"
  MAX_SUPPLY :: uint256
  openMinting :: bool
  merkleRoot :: bytes32
  roles :: "role \<Rightarrow> address \<Rightarrow> bool"
  defaultRoyalty :: "address \<times> uint96"
  tokenRoyalty :: "uint256 \<Rightarrow> address \<times> uint96"

text \<open>The zero value of the struct, which \<^verbatim>\<open>delete\<close> writes.\<close>

definition noLicense :: CollectibleLicense where
  "noLicense = \<lparr>appId = [], expiry = 0, soulbound = False, ephemeral = False\<rparr>"

text \<open>
  The constructor, called by \<^verbatim>\<open>sender\<close>. \<^verbatim>\<open>_setDefaultRoyalty\<close> reverts on a fee
  above the denominator 10000 and on the zero receiver.
\<close>

definition constructor_Collectible :: "address \<Rightarrow> uint256 \<Rightarrow> address \<Rightarrow> uint96 \<Rightarrow> error + collectible" where
  "constructor_Collectible sender maxSupply royaltyReceiver royaltyFeeNumerator =
     (if 10000 < royaltyFeeNumerator then Inl RoyaltyFeeTooHigh
      else if royaltyReceiver = 0 then Inl InvalidRoyaltyReceiver
      else Inr \<lparr>owners = (\<lambda>_. 0), tokenApprovals = (\<lambda>_. 0),
                operatorApprovals = (\<lambda>_ _. False), tokenURIs = (\<lambda>_. []), events = [],
                nextTokenId = 0, licenses = (\<lambda>_. noLicense), userAppToken = (\<lambda>_ _. 0),
                redeemed = (\<lambda>_. False), MAX_SUPPLY = maxSupply, openMinting = False,
                merkleRoot = 0,
                roles = (\<lambda>r a. a = sender),
                defaultRoyalty = (royaltyReceiver, royaltyFeeNumerator),
                tokenRoyalty = (\<lambda>_. (0, 0))\<rparr>)"

text \<open>
  \<^verbatim>\<open>_beforeTokenTransfer\<close> (the \<^verbatim>\<open>super\<close> call maintains the enumeration arrays
  only; \<^verbatim>\<open>batchSize\<close> is always 1).
\<close>

definition beforeTokenTransfer :: "host \<Rightarrow> collectible hook" where
  "beforeTokenTransfer h s from to tokenId =
     (if from \<noteq> 0 \<and> to \<noteq> 0 then
        if soulbound (licenses s tokenId) then Inl SoulboundLocked
        else
          let lic = licenses s tokenId in
          if appId lic \<noteq> [] then
            let aHash = keccak256 h (appId lic);
                s1 = (if userAppToken s from aHash = tokenId
                      then s\<lparr>userAppToken :=
                               (userAppToken s)(from := (userAppToken s from)(aHash := 0))\<rparr>
                      else s)
            in Inr (s1\<lparr>userAppToken :=
                         (userAppToken s1)(to := (userAppToken s1 to)(aHash := tokenId))\<rparr>)
          else Inr s
      else Inr s)"

text \<open>
  The block under the comment \<^verbatim>\<open>// License logic\<close> of \<^verbatim>\<open>mintCollectible\<close>, which
  \<^verbatim>\<open>openMint\<close> repeats with \<^verbatim>\<open>msg.sender\<close> for \<^verbatim>\<open>to\<close>.
\<close>

definition licenseLogic :: "host \<Rightarrow> collectible \<Rightarrow> address \<Rightarrow> uint256 \<Rightarrow> string \<Rightarrow> uint64 \<Rightarrow> bool \<Rightarrow> bool \<Rightarrow> error + collectible" where
  "licenseLogic h s to tokenId appId' expiry' soulbound' ephemeral' =
     (if appId' \<noteq> [] then
        let aHash = keccak256 h appId' in
        if userAppToken s to aHash \<noteq> 0 then Inl DuplicateLicense
        else Inr (s\<lparr>licenses := (licenses s)(tokenId :=
                        \<lparr>appId = appId', expiry = expiry',
                         soulbound = soulbound', ephemeral = ephemeral'\<rparr>),
                     userAppToken := (userAppToken s)(to := (userAppToken s to)(aHash := tokenId)),
                     events := events s @ [LicenseMinted to tokenId appId' expiry']\<rparr>)
      else Inr s)"

text \<open>\<^verbatim>\<open>ERC2981._setTokenRoyalty\<close>.\<close>

definition setTokenRoyalty :: "collectible \<Rightarrow> uint256 \<Rightarrow> address \<Rightarrow> uint96 \<Rightarrow> error + collectible" where
  "setTokenRoyalty s tokenId receiver feeNumerator =
     (if 10000 < feeNumerator then Inl RoyaltyFeeTooHigh
      else if receiver = 0 then Inl InvalidRoyaltyReceiver
      else Inr (s\<lparr>tokenRoyalty := (tokenRoyalty s)(tokenId := (receiver, feeNumerator))\<rparr>))"

definition mintCollectible :: "host \<Rightarrow> collectible \<Rightarrow> address \<Rightarrow> address \<Rightarrow> string \<Rightarrow> string \<Rightarrow> uint64 \<Rightarrow> bool \<Rightarrow> bool \<Rightarrow> address \<Rightarrow> uint96 \<Rightarrow> error + collectible \<times> uint256" where
  "mintCollectible h s sender to tokenURI' appId' expiry' soulbound' ephemeral'
       royaltyReceiver royaltyFraction =
     (if \<not> roles s MINTER_ROLE sender then Inl Unauthorized
      else if \<not> nextTokenId s < MAX_SUPPLY s then Inl CapacityExceeded
      else case increment (nextTokenId s) of
        Inl e \<Rightarrow> Inl e
      | Inr tokenId \<Rightarrow>
         (case safeMint h (beforeTokenTransfer h) (s\<lparr>nextTokenId := tokenId\<rparr>) to tokenId of
            Inl e \<Rightarrow> Inl e
          | Inr s1 \<Rightarrow>
             (case setTokenURI s1 tokenId tokenURI' of
                Inl e \<Rightarrow> Inl e
              | Inr s2 \<Rightarrow>
                 (case licenseLogic h s2 to tokenId appId' expiry' soulbound' ephemeral' of
                    Inl e \<Rightarrow> Inl e
                  | Inr s3 \<Rightarrow>
                      if royaltyReceiver \<noteq> 0 then
                        (case setTokenRoyalty s3 tokenId royaltyReceiver royaltyFraction of
                           Inl e \<Rightarrow> Inl e
                         | Inr s4 \<Rightarrow> Inr (s4, tokenId))
                      else Inr (s3, tokenId)))))"

definition openMint :: "host \<Rightarrow> collectible \<Rightarrow> address \<Rightarrow> string \<Rightarrow> string \<Rightarrow> uint64 \<Rightarrow> bool \<Rightarrow> bool \<Rightarrow> bytes32 list \<Rightarrow> error + collectible \<times> uint256" where
  "openMint h s sender tokenURI' appId' expiry' soulbound' ephemeral' merkleProof =
     (if \<not> openMinting s then Inl OpenMintingDisabled
      else if \<not> nextTokenId s < MAX_SUPPLY s then Inl CapacityExceeded
      else if merkleRoot s \<noteq> 0
              \<and> \<not> MerkleProof_verify h merkleProof (merkleRoot s)
                    (keccak256 h (encodePacked sender))
        then Inl NotAllowlisted
      else case increment (nextTokenId s) of
        Inl e \<Rightarrow> Inl e
      | Inr tokenId \<Rightarrow>
         (case safeMint h (beforeTokenTransfer h) (s\<lparr>nextTokenId := tokenId\<rparr>) sender tokenId of
            Inl e \<Rightarrow> Inl e
          | Inr s1 \<Rightarrow>
             (case setTokenURI s1 tokenId tokenURI' of
                Inl e \<Rightarrow> Inl e
              | Inr s2 \<Rightarrow>
                 (case licenseLogic h s2 sender tokenId appId' expiry' soulbound' ephemeral' of
                    Inl e \<Rightarrow> Inl e
                  | Inr s3 \<Rightarrow> Inr (s3, tokenId)))))"

text \<open>
  \<^verbatim>\<open>batchMint\<close>. The loop reads all eight arrays at index \<^verbatim>\<open>i\<close>, for \<^verbatim>\<open>i\<close> below
  \<^verbatim>\<open>recipients.length\<close>; after the length check every read is in range. The call of
  \<^verbatim>\<open>mintCollectible\<close> is an internal one: \<^verbatim>\<open>msg.sender\<close> stays the caller of
  \<^verbatim>\<open>batchMint\<close>, and a revert of one entry reverts the whole call.
\<close>

type_synonym mintRequest =
  "address \<times> string \<times> string \<times> uint64 \<times> bool \<times> bool \<times> address \<times> uint96"

primrec mintEach :: "host \<Rightarrow> collectible \<Rightarrow> address \<Rightarrow> mintRequest list \<Rightarrow> error + collectible" where
  "mintEach h s sender [] = Inr s"
| "mintEach h s sender (r # rs) =
     (case r of (to, tokenURI', appId', expiry', soulbound', ephemeral', royaltyReceiver, royaltyFraction) \<Rightarrow>
        (case mintCollectible h s sender to tokenURI' appId' expiry' soulbound' ephemeral'
                royaltyReceiver royaltyFraction of
           Inl e \<Rightarrow> Inl e
         | Inr (s1, tokenId) \<Rightarrow> mintEach h s1 sender rs))"

definition batchMint :: "host \<Rightarrow> collectible \<Rightarrow> address \<Rightarrow> address list \<Rightarrow> string list \<Rightarrow> string list \<Rightarrow> uint64 list \<Rightarrow> bool list \<Rightarrow> bool list \<Rightarrow> address list \<Rightarrow> uint96 list \<Rightarrow> error + collectible" where
  "batchMint h s sender recipients uris appIds expiries soulbounds ephemerals
       royaltyReceivers royaltyFractions =
     (if \<not> roles s MINTER_ROLE sender then Inl Unauthorized
      else if \<not> (length recipients = length uris \<and>
                 length uris = length appIds \<and>
                 length appIds = length expiries \<and>
                 length expiries = length soulbounds \<and>
                 length soulbounds = length ephemerals \<and>
                 length ephemerals = length royaltyReceivers \<and>
                 length royaltyReceivers = length royaltyFractions)
        then Inl ArityMismatch
      else mintEach h s sender
             (map (\<lambda>i. (recipients ! i, uris ! i, appIds ! i, expiries ! i, soulbounds ! i,
                         ephemerals ! i, royaltyReceivers ! i, royaltyFractions ! i))
                  [0..<length recipients]))"

definition redeem :: "collectible \<Rightarrow> address \<Rightarrow> uint256 \<Rightarrow> error + collectible" where
  "redeem s sender tokenId =
     (case ownerOf s tokenId of
        Inl e \<Rightarrow> Inl e
      | Inr owner \<Rightarrow>
          if owner \<noteq> sender then Inl NotOwner
          else
            let lic = licenses s tokenId in
            if \<not> ephemeral lic then Inl NotEphemeral
            else if redeemed s tokenId then Inl AlreadyRedeemed
            else Inr (s\<lparr>redeemed := (redeemed s)(tokenId := True),
                         events := events s @ [Redeemed sender tokenId]\<rparr>))"

text \<open>
  \<^verbatim>\<open>burn\<close>; the overridden \<^verbatim>\<open>_burn\<close> resets the token's royalty after the
  base contract's burn.
\<close>

definition burn :: "host \<Rightarrow> collectible \<Rightarrow> address \<Rightarrow> uint256 \<Rightarrow> error + collectible" where
  "burn h s sender tokenId =
     (case ownerOf s tokenId of
        Inl e \<Rightarrow> Inl e
      | Inr owner \<Rightarrow>
          if owner \<noteq> sender then Inl NotOwner
          else
            let lic = licenses s tokenId;
                s1 = (if appId lic \<noteq> [] then
                        let aHash = keccak256 h (appId lic) in
                        s\<lparr>userAppToken :=
                            (userAppToken s)(sender := (userAppToken s sender)(aHash := 0)),
                          licenses := (licenses s)(tokenId := noLicense)\<rparr>
                      else s)
            in (case burnToken (beforeTokenTransfer h) s1 tokenId of
                  Inl e \<Rightarrow> Inl e
                | Inr s2 \<Rightarrow> Inr (s2\<lparr>tokenRoyalty := (tokenRoyalty s2)(tokenId := (0, 0))\<rparr>)))"

definition setOpenMinting :: "collectible \<Rightarrow> address \<Rightarrow> bool \<Rightarrow> error + collectible" where
  "setOpenMinting s sender enabled =
     (if \<not> roles s DEFAULT_ADMIN_ROLE sender then Inl Unauthorized
      else Inr (s\<lparr>openMinting := enabled\<rparr>))"

definition setMerkleRoot :: "collectible \<Rightarrow> address \<Rightarrow> bytes32 \<Rightarrow> error + collectible" where
  "setMerkleRoot s sender newRoot =
     (if \<not> roles s DEFAULT_ADMIN_ROLE sender then Inl Unauthorized
      else Inr (s\<lparr>merkleRoot := newRoot\<rparr>))"

definition setDefaultRoyalty :: "collectible \<Rightarrow> address \<Rightarrow> address \<Rightarrow> uint96 \<Rightarrow> error + collectible" where
  "setDefaultRoyalty s sender receiver feeNumerator =
     (if \<not> roles s DEFAULT_ADMIN_ROLE sender then Inl Unauthorized
      else if 10000 < feeNumerator then Inl RoyaltyFeeTooHigh
      else if receiver = 0 then Inl InvalidRoyaltyReceiver
      else Inr (s\<lparr>defaultRoyalty := (receiver, feeNumerator)\<rparr>))"

text \<open>
  \<^verbatim>\<open>grantRole\<close> and \<^verbatim>\<open>revokeRole\<close> of \<^verbatim>\<open>AccessControl\<close>: the admin role of every
  role is \<^verbatim>\<open>DEFAULT_ADMIN_ROLE\<close>.
\<close>

definition setRole :: "collectible \<Rightarrow> address \<Rightarrow> role \<Rightarrow> address \<Rightarrow> bool \<Rightarrow> error + collectible" where
  "setRole s sender r account granted =
     (if \<not> roles s DEFAULT_ADMIN_ROLE sender then Inl Unauthorized
      else Inr (s\<lparr>roles := (roles s)(r := (roles s r)(account := granted))\<rparr>))"

subsection \<open>Transactions\<close>

text \<open>
  A transaction is one external call with its sender first. A call that reverts leaves
  the storage and the log as they were: that is the EVM's rule, and \<open>exec\<close> states it.
\<close>

datatype call =
    MintCollectible address address string string uint64 bool bool address uint96
  | OpenMint address string string uint64 bool bool "bytes32 list"
  | BatchMint address "address list" "string list" "string list" "uint64 list"
      "bool list" "bool list" "address list" "uint96 list"
  | Redeem address uint256
  | Burn address uint256
  | TransferFrom address address address uint256
  | SafeTransferFrom address address address uint256
  | Approve address address uint256
  | SetApprovalForAll address address bool
  | SetOpenMinting address bool
  | SetMerkleRoot address bytes32
  | SetDefaultRoyalty address address uint96
  | GrantRole address role address
  | RevokeRole address role address

fun dispatch :: "host \<Rightarrow> collectible \<Rightarrow> call \<Rightarrow> error + collectible" where
  "dispatch h s (MintCollectible sender to u a e sb ep rr rf) =
     (case mintCollectible h s sender to u a e sb ep rr rf of
        Inl err \<Rightarrow> Inl err | Inr (s1, tokenId) \<Rightarrow> Inr s1)"
| "dispatch h s (OpenMint sender u a e sb ep proof) =
     (case openMint h s sender u a e sb ep proof of
        Inl err \<Rightarrow> Inl err | Inr (s1, tokenId) \<Rightarrow> Inr s1)"
| "dispatch h s (BatchMint sender rs us as es sbs eps rrs rfs) =
     batchMint h s sender rs us as es sbs eps rrs rfs"
| "dispatch h s (Redeem sender tokenId) = redeem s sender tokenId"
| "dispatch h s (Burn sender tokenId) = burn h s sender tokenId"
| "dispatch h s (TransferFrom sender from to tokenId) =
     transferFrom (beforeTokenTransfer h) s sender from to tokenId"
| "dispatch h s (SafeTransferFrom sender from to tokenId) =
     safeTransferFrom h (beforeTokenTransfer h) s sender from to tokenId"
| "dispatch h s (Approve sender to tokenId) = approve s sender to tokenId"
| "dispatch h s (SetApprovalForAll sender operator approved) =
     setApprovalForAll s sender operator approved"
| "dispatch h s (SetOpenMinting sender enabled) = setOpenMinting s sender enabled"
| "dispatch h s (SetMerkleRoot sender newRoot) = setMerkleRoot s sender newRoot"
| "dispatch h s (SetDefaultRoyalty sender receiver fee) =
     setDefaultRoyalty s sender receiver fee"
| "dispatch h s (GrantRole sender r account) = setRole s sender r account True"
| "dispatch h s (RevokeRole sender r account) = setRole s sender r account False"

definition exec :: "host \<Rightarrow> collectible \<Rightarrow> call \<Rightarrow> collectible" where
  "exec h s c = (case dispatch h s c of Inl e \<Rightarrow> s | Inr s1 \<Rightarrow> s1)"

definition run :: "host \<Rightarrow> collectible \<Rightarrow> call list \<Rightarrow> collectible" where
  "run h s cs = foldl (exec h) s cs"

section \<open>AppBoundLicense\<close>

text \<open>
  The first contract of the file: minting is the contract owner's (\<^verbatim>\<open>Ownable\<close>), a
  license has an application id and an expiry only, and there is no supply cap.
\<close>

record appbound = "License ledger" +
  ownable_owner :: address

definition constructor_AppBound :: "address \<Rightarrow> appbound" where
  "constructor_AppBound sender =
     \<lparr>owners = (\<lambda>_. 0), tokenApprovals = (\<lambda>_. 0),
      operatorApprovals = (\<lambda>_ _. False), tokenURIs = (\<lambda>_. []), events = [],
      nextTokenId = 0, licenses = (\<lambda>_. \<lparr>appId = [], expiry = 0\<rparr>),
      userAppToken = (\<lambda>_ _. 0), ownable_owner = sender\<rparr>"

definition beforeTokenTransfer_ABL :: "host \<Rightarrow> appbound hook" where
  "beforeTokenTransfer_ABL h s from to tokenId =
     (if from \<noteq> 0 \<and> to \<noteq> 0 then
        let aHash = keccak256 h (appId (licenses s tokenId));
            s1 = (if userAppToken s from aHash = tokenId
                  then s\<lparr>userAppToken :=
                           (userAppToken s)(from := (userAppToken s from)(aHash := 0))\<rparr>
                  else s)
        in Inr (s1\<lparr>userAppToken :=
                     (userAppToken s1)(to := (userAppToken s1 to)(aHash := tokenId))\<rparr>)
      else Inr s)"

definition mintTo :: "host \<Rightarrow> appbound \<Rightarrow> address \<Rightarrow> address \<Rightarrow> string \<Rightarrow> string \<Rightarrow> uint64 \<Rightarrow> error + appbound \<times> uint256" where
  "mintTo h s sender to appId' tokenURI' expiry' =
     (if sender \<noteq> ownable_owner s then Inl Unauthorized
      else
        let aHash = keccak256 h appId' in
        if userAppToken s to aHash \<noteq> 0 then Inl DuplicateLicense
        else
          (case increment (nextTokenId s) of
             Inl e \<Rightarrow> Inl e
           | Inr tokenId \<Rightarrow>
              (case safeMint h (beforeTokenTransfer_ABL h) (s\<lparr>nextTokenId := tokenId\<rparr>) to tokenId of
                 Inl e \<Rightarrow> Inl e
               | Inr s1 \<Rightarrow>
                  (case setTokenURI s1 tokenId tokenURI' of
                     Inl e \<Rightarrow> Inl e
                   | Inr s2 \<Rightarrow>
                       Inr (s2\<lparr>licenses := (licenses s2)(tokenId :=
                                   \<lparr>appId = appId', expiry = expiry'\<rparr>),
                               userAppToken :=
                                 (userAppToken s2)(to := (userAppToken s2 to)(aHash := tokenId)),
                               events := events s2 @ [LicenseMinted to tokenId appId' expiry']\<rparr>,
                            tokenId)))))"

definition burn_ABL :: "host \<Rightarrow> appbound \<Rightarrow> address \<Rightarrow> uint256 \<Rightarrow> error + appbound" where
  "burn_ABL h s sender tokenId =
     (case ownerOf s tokenId of
        Inl e \<Rightarrow> Inl e
      | Inr owner \<Rightarrow>
          if owner \<noteq> sender then Inl NotOwner
          else
            let aHash = keccak256 h (appId (licenses s tokenId));
                s1 = s\<lparr>licenses := (licenses s)(tokenId := \<lparr>appId = [], expiry = 0\<rparr>),
                       userAppToken :=
                         (userAppToken s)(sender := (userAppToken s sender)(aHash := 0))\<rparr>
            in (case burnToken (beforeTokenTransfer_ABL h) s1 tokenId of
                  Inl e \<Rightarrow> Inl e
                | Inr s2 \<Rightarrow> Inr (s2\<lparr>events := events s2 @ [LicenseBurned sender tokenId]\<rparr>)))"

text \<open>
  \<^verbatim>\<open>checkLicense\<close> is a view; its named results start as zero values. It reads the
  index, the owner table and the expiry only, and is typed for any ledger that has them.
\<close>

definition checkLicense :: "host \<Rightarrow> ('x License_scheme, 'a) ledger_scheme \<Rightarrow> address \<Rightarrow> string \<Rightarrow> error + uint256 \<times> string \<times> uint64" where
  "checkLicense h s user appId' =
     (let aHash = keccak256 h appId';
          tokenId = userAppToken s user aHash
      in if tokenId \<noteq> 0 then
           (case tokenURI s tokenId of
              Inl e \<Rightarrow> Inl e
            | Inr metadataURI \<Rightarrow> Inr (tokenId, metadataURI, expiry (licenses s tokenId)))
         else Inr (tokenId, [], 0))"

text \<open>\<^verbatim>\<open>transferOwnership\<close> and \<^verbatim>\<open>renounceOwnership\<close> of \<^verbatim>\<open>Ownable\<close>.\<close>

definition transferOwnership :: "appbound \<Rightarrow> address \<Rightarrow> address \<Rightarrow> error + appbound" where
  "transferOwnership s sender newOwner =
     (if sender \<noteq> ownable_owner s then Inl Unauthorized
      else if newOwner = 0 then Inl NewOwnerIsZero
      else Inr (s\<lparr>ownable_owner := newOwner\<rparr>))"

definition renounceOwnership :: "appbound \<Rightarrow> address \<Rightarrow> error + appbound" where
  "renounceOwnership s sender =
     (if sender \<noteq> ownable_owner s then Inl Unauthorized
      else Inr (s\<lparr>ownable_owner := 0\<rparr>))"

datatype call_ABL =
    MintTo address address string string uint64
  | Burn_ABL address uint256
  | TransferFrom_ABL address address address uint256
  | SafeTransferFrom_ABL address address address uint256
  | Approve_ABL address address uint256
  | SetApprovalForAll_ABL address address bool
  | TransferOwnership address address
  | RenounceOwnership address

fun dispatch_ABL :: "host \<Rightarrow> appbound \<Rightarrow> call_ABL \<Rightarrow> error + appbound" where
  "dispatch_ABL h s (MintTo sender to a u e) =
     (case mintTo h s sender to a u e of
        Inl err \<Rightarrow> Inl err | Inr (s1, tokenId) \<Rightarrow> Inr s1)"
| "dispatch_ABL h s (Burn_ABL sender tokenId) = burn_ABL h s sender tokenId"
| "dispatch_ABL h s (TransferFrom_ABL sender from to tokenId) =
     transferFrom (beforeTokenTransfer_ABL h) s sender from to tokenId"
| "dispatch_ABL h s (SafeTransferFrom_ABL sender from to tokenId) =
     safeTransferFrom h (beforeTokenTransfer_ABL h) s sender from to tokenId"
| "dispatch_ABL h s (Approve_ABL sender to tokenId) = approve s sender to tokenId"
| "dispatch_ABL h s (SetApprovalForAll_ABL sender operator approved) =
     setApprovalForAll s sender operator approved"
| "dispatch_ABL h s (TransferOwnership sender newOwner) = transferOwnership s sender newOwner"
| "dispatch_ABL h s (RenounceOwnership sender) = renounceOwnership s sender"

definition exec_ABL :: "host \<Rightarrow> appbound \<Rightarrow> call_ABL \<Rightarrow> appbound" where
  "exec_ABL h s c = (case dispatch_ABL h s c of Inl e \<Rightarrow> s | Inr s1 \<Rightarrow> s1)"

definition run_ABL :: "host \<Rightarrow> appbound \<Rightarrow> call_ABL list \<Rightarrow> appbound" where
  "run_ABL h s cs = foldl (exec_ABL h) s cs"

section \<open>The access issuance service\<close>

text \<open>
  The handler of \<^verbatim>\<open>POST /api/auth\<close> in \<^verbatim>\<open>backend/index.js\<close>, which reads the
  contract through \<^verbatim>\<open>userAppToken\<close> and \<^verbatim>\<open>checkLicense\<close>. \<^verbatim>\<open>Number\<close> converts the \<^verbatim>\<open>uint64\<close> expiry to a
  double: exact below \<open>2 ^ 53\<close>, and above it rounded to 53 significant bits, to nearest
  with ties to even.
\<close>

definition Number :: "nat \<Rightarrow> nat" where
  "Number n =
     (if n < 2 ^ 53 then n
      else
        let k = floorlog 2 n - 53;
            q = n div 2 ^ k;
            r = n mod 2 ^ k
        in if 2 * r < 2 ^ k \<or> (2 * r = 2 ^ k \<and> even q) then q * 2 ^ k else (q + 1) * 2 ^ k)"

text \<open>
  The answers of the handler: 400, the two 403 answers, 500 (any exception of the two
  contract reads), and the signed token, of which the payload is kept: wallet,
  application id and token id.
\<close>

datatype response =
    BadRequest
  | NoLicense
  | LicenseExpired
  | ServerError
  | Credential address string uint256

text \<open>
  \<open>now\<close> is \<^verbatim>\<open>Math.floor(Date.now() / 1000)\<close>. \<open>wallet\<close> is a well-formed address,
  so a non-empty string; \<^verbatim>\<open>appId\<close> is given by its UTF-8 bytes, which is what both
  \<^verbatim>\<open>toUtf8Bytes\<close> and the contract hash, and the empty one is falsy. The two reads see
  the same state of the contract.
\<close>

definition issueAccess :: "host \<Rightarrow> ('x License_scheme, 'a) ledger_scheme \<Rightarrow> nat \<Rightarrow> address \<Rightarrow> string \<Rightarrow> response" where
  "issueAccess h s now wallet appId' =
     (if appId' = [] then BadRequest
      else
        let tokenId = userAppToken s wallet (keccak256 h appId') in
        if tokenId = 0 then NoLicense
        else
          (case checkLicense h s wallet appId' of
             Inl e \<Rightarrow> ServerError
           | Inr (tid, metadataURI, metaExpiry) \<Rightarrow>
               let expiry' = (if metaExpiry \<noteq> 0 then Number (unat metaExpiry) else 0) in
               if expiry' \<noteq> 0 \<and> now > expiry' then LicenseExpired
               else Credential wallet appId' tokenId))"

section \<open>What the operations leave behind\<close>

text \<open>
  The definitions of this section are not code of the repository: they name the states
  and the conditions that the theorems speak about. The lemmas of the next section show
  that the functions above compute exactly these.
\<close>

text \<open>The approval condition that \<^verbatim>\<open>_isApprovedOrOwner\<close> evaluates for an existing token.\<close>

definition approved :: "'a erc721_scheme \<Rightarrow> address \<Rightarrow> uint256 \<Rightarrow> bool" where
  "approved s sender t =
     (sender = owners s t \<or> operatorApprovals s (owners s t) sender \<or> tokenApprovals s t = sender)"

text \<open>
  The index after the transfer hook has run for a licensed token: the slot of \<open>from\<close> is
  cleared if it held the token, then the slot of \<open>to\<close> is written over.
\<close>

definition reindex :: "host \<Rightarrow> ('x License_scheme, 'a) ledger_scheme \<Rightarrow> address \<Rightarrow> address \<Rightarrow> uint256 \<Rightarrow> address \<Rightarrow> bytes32 \<Rightarrow> uint256" where
  "reindex h s from to t =
     (let a = keccak256 h (appId (licenses s t));
          i1 = (if userAppToken s from a = t
                then (userAppToken s)(from := (userAppToken s from)(a := 0))
                else userAppToken s)
      in i1(to := (i1 to)(a := t)))"

text \<open>The state after a successful \<^verbatim>\<open>mintCollectible\<close> or \<^verbatim>\<open>openMint\<close>.\<close>

definition minted :: "host \<Rightarrow> collectible \<Rightarrow> address \<Rightarrow> string \<Rightarrow> string \<Rightarrow> uint64 \<Rightarrow> bool \<Rightarrow> bool \<Rightarrow> address \<Rightarrow> uint96 \<Rightarrow> collectible" where
  "minted h s to u a e sb ep rr rf =
     (let t = nextTokenId s + 1 in
      s\<lparr>nextTokenId := t,
        owners := (owners s)(t := to),
        tokenURIs := (tokenURIs s)(t := u),
        licenses := (if a = [] then licenses s
                     else (licenses s)(t := \<lparr>appId = a, expiry = e, soulbound = sb, ephemeral = ep\<rparr>)),
        userAppToken := (if a = [] then userAppToken s
                         else (userAppToken s)(to := (userAppToken s to)(keccak256 h a := t))),
        events := events s @ Transfer 0 to t # (if a = [] then [] else [LicenseMinted to t a e]),
        tokenRoyalty := (if rr = 0 then tokenRoyalty s else (tokenRoyalty s)(t := (rr, rf)))\<rparr>)"

text \<open>The state after a successful transfer of \<^verbatim>\<open>CollectibleLicenseNFT\<close>.\<close>

definition transferred :: "host \<Rightarrow> collectible \<Rightarrow> address \<Rightarrow> address \<Rightarrow> uint256 \<Rightarrow> collectible" where
  "transferred h s from to t =
     s\<lparr>userAppToken := (if appId (licenses s t) = [] then userAppToken s else reindex h s from to t),
       owners := (owners s)(t := to),
       tokenApprovals := (tokenApprovals s)(t := 0),
       events := events s @ [Transfer from to t]\<rparr>"

text \<open>The state after a successful \<^verbatim>\<open>burn\<close> of \<^verbatim>\<open>CollectibleLicenseNFT\<close>.\<close>

definition burned :: "host \<Rightarrow> collectible \<Rightarrow> uint256 \<Rightarrow> collectible" where
  "burned h s t =
     s\<lparr>userAppToken :=
         (if appId (licenses s t) = [] then userAppToken s
          else (userAppToken s)(owners s t :=
                 (userAppToken s (owners s t))(keccak256 h (appId (licenses s t)) := 0))),
       licenses := (if appId (licenses s t) = [] then licenses s else (licenses s)(t := noLicense)),
       owners := (owners s)(t := 0),
       tokenApprovals := (tokenApprovals s)(t := 0),
       tokenURIs := (tokenURIs s)(t := []),
       events := events s @ [Transfer (owners s t) 0 t],
       tokenRoyalty := (tokenRoyalty s)(t := (0, 0))\<rparr>"

text \<open>The same three states for \<^verbatim>\<open>AppBoundLicense\<close>.\<close>

definition minted_ABL :: "host \<Rightarrow> appbound \<Rightarrow> address \<Rightarrow> string \<Rightarrow> string \<Rightarrow> uint64 \<Rightarrow> appbound" where
  "minted_ABL h s to a u e =
     (let t = nextTokenId s + 1 in
      s\<lparr>nextTokenId := t,
        owners := (owners s)(t := to),
        tokenURIs := (tokenURIs s)(t := u),
        licenses := (licenses s)(t := \<lparr>appId = a, expiry = e\<rparr>),
        userAppToken := (userAppToken s)(to := (userAppToken s to)(keccak256 h a := t)),
        events := events s @ [Transfer 0 to t, LicenseMinted to t a e]\<rparr>)"

definition transferred_ABL :: "host \<Rightarrow> appbound \<Rightarrow> address \<Rightarrow> address \<Rightarrow> uint256 \<Rightarrow> appbound" where
  "transferred_ABL h s from to t =
     s\<lparr>userAppToken := reindex h s from to t,
       owners := (owners s)(t := to),
       tokenApprovals := (tokenApprovals s)(t := 0),
       events := events s @ [Transfer from to t]\<rparr>"

definition burned_ABL :: "host \<Rightarrow> appbound \<Rightarrow> uint256 \<Rightarrow> appbound" where
  "burned_ABL h s t =
     s\<lparr>licenses := (licenses s)(t := \<lparr>appId = [], expiry = 0\<rparr>),
       userAppToken := (userAppToken s)(owners s t :=
          (userAppToken s (owners s t))(keccak256 h (appId (licenses s t)) := 0)),
       owners := (owners s)(t := 0),
       tokenApprovals := (tokenApprovals s)(t := 0),
       tokenURIs := (tokenURIs s)(t := []),
       events := events s @ [Transfer (owners s t) 0 t, LicenseBurned (owners s t) t]\<rparr>"

subsection \<open>The allocation history and the invariants\<close>

text \<open>
  The ids ever allocated, in order: \<^verbatim>\<open>_mint\<close> logs \<^verbatim>\<open>Transfer(address(0), to, tokenId)\<close>,
  and no other function logs a transfer from the zero address.
\<close>

fun mintedIds :: "event list \<Rightarrow> uint256 list" where
  "mintedIds [] = []"
| "mintedIds (Transfer from to tokenId # es) =
     (if from = 0 then tokenId # mintedIds es else mintedIds es)"
| "mintedIds (LicenseMinted to tokenId a e # es) = mintedIds es"
| "mintedIds (LicenseBurned owner tokenId # es) = mintedIds es"
| "mintedIds (Redeemed user tokenId # es) = mintedIds es"

text \<open>The ids 1, 2, ..., n.\<close>

definition firstIds :: "uint256 \<Rightarrow> uint256 list" where
  "firstIds n = map of_nat [1..<Suc (unat n)]"

text \<open>Every existing token has an id that was allocated, and id 0 is no token.\<close>

definition tokens_bounded :: "('l, 'a) ledger_scheme \<Rightarrow> bool" where
  "tokens_bounded s = (\<forall>t. owners s t \<noteq> 0 \<longrightarrow> t \<noteq> 0 \<and> t \<le> nextTokenId s)"

text \<open>
  No index entry dangles: the token it names exists, belongs to the owner of the slot,
  and its application id hashes to the key of the slot.
\<close>

definition index_sound :: "host \<Rightarrow> ('x License_scheme, 'a) ledger_scheme \<Rightarrow> bool" where
  "index_sound h s =
     (\<forall>u a. userAppToken s u a \<noteq> 0 \<longrightarrow>
        u \<noteq> 0 \<and> owners s (userAppToken s u a) = u
        \<and> keccak256 h (appId (licenses s (userAppToken s u a))) = a)"

definition index_licensed :: "('x License_scheme, 'a) ledger_scheme \<Rightarrow> bool" where
  "index_licensed s =
     (\<forall>u a. userAppToken s u a \<noteq> 0 \<longrightarrow> appId (licenses s (userAppToken s u a)) \<noteq> [])"

definition ids_sequential :: "('l, 'a) ledger_scheme \<Rightarrow> bool" where
  "ids_sequential s = (mintedIds (events s) = firstIds (nextTokenId s))"

definition ledger_inv :: "host \<Rightarrow> collectible \<Rightarrow> bool" where
  "ledger_inv h s =
     (tokens_bounded s \<and> index_sound h s \<and> index_licensed s \<and> ids_sequential s
      \<and> nextTokenId s \<le> MAX_SUPPLY s)"

definition ledger_inv_ABL :: "host \<Rightarrow> appbound \<Rightarrow> bool" where
  "ledger_inv_ABL h s = (tokens_bounded s \<and> index_sound h s \<and> ids_sequential s)"

subsection \<open>Concrete ledgers\<close>

text \<open>
  A host and a few accounts on which the theorems are run. The hash of \<open>demoHost\<close> is a
  stand-in for Keccak-256 (it tells \<open>''demo''\<close> from the empty string, which is all the
  runs below need); every account accepts tokens.
\<close>

definition demoHost :: host where
  "demoHost = \<lparr>keccak256 = (\<lambda>bs. of_nat (length bs)),
               MerkleProof_verify = (\<lambda>_ _ _. False),
               acceptsERC721 = (\<lambda>_. True)\<rparr>"

definition admin :: address where "admin = 1"
definition U1 :: address where "U1 = 2"
definition U2 :: address where "U2 = 3"
definition U3 :: address where "U3 = 4"

text \<open>A collectible ledger with room for ten tokens, and one with room for a single token.\<close>

definition demoLedger :: collectible where
  "demoLedger = projr (constructor_Collectible admin 10 admin 0)"

definition smallLedger :: collectible where
  "smallLedger = projr (constructor_Collectible admin 1 admin 0)"

definition mintDemo :: "address \<Rightarrow> call" where
  "mintDemo to = MintCollectible admin to ''ipfs://demo'' ''demo'' 0 False False 0 0"

text \<open>The single token of \<open>smallLedger\<close> minted.\<close>

definition fullLedger :: collectible where
  "fullLedger = run demoHost smallLedger [mintDemo U1]"

text \<open>
  Scenario A twice over, then a transfer: \<open>U1\<close> and \<open>U2\<close> each get a license for
  \<open>''demo''\<close> (tokens 1 and 2), and \<open>U1\<close> transfers token 1 to \<open>U2\<close>.
\<close>

definition crowded :: collectible where
  "crowded = run demoHost demoLedger [mintDemo U1, mintDemo U2, TransferFrom U1 U1 U2 1]"

text \<open>A ledger with one soulbound and one ephemeral license (tokens 1 and 2).\<close>

definition flagged :: collectible where
  "flagged = run demoHost demoLedger
     [MintCollectible admin U1 ''ipfs://s'' ''vault'' 0 True False 0 0,
      MintCollectible admin U2 ''ipfs://e'' ''pass'' 0 False True 0 0]"

text \<open>An \<^verbatim>\<open>AppBoundLicense\<close> ledger as \<^verbatim>\<open>scripts/seed.js\<close> leaves it, with an expiry.\<close>

definition seeded :: appbound where
  "seeded = run_ABL demoHost (constructor_AppBound admin)
     [MintTo admin U1 ''demo-app'' ''ipfs://demo-metadata'' 1000]"

text \<open>Further runs: one license; two licenses; and \<open>crowded\<close> after \<open>U2\<close> passes token 2 on.\<close>

definition licensed :: collectible where
  "licensed = run demoHost demoLedger [mintDemo U1]"

definition paired :: collectible where
  "paired = run demoHost demoLedger [mintDemo U1, mintDemo U2]"

definition moved :: collectible where
  "moved = exec demoHost crowded (TransferFrom U2 U2 U3 2)"

text \<open>
  A burn between two mints; \<open>crowded\<close> after \<open>U2\<close> burns token 2; and an
  \<^verbatim>\<open>AppBoundLicense\<close> ledger with a license for the empty application id.
\<close>

definition recycled :: collectible where
  "recycled = run demoHost demoLedger [mintDemo U1, Burn U1 1, mintDemo U1]"

definition orphaned :: collectible where
  "orphaned = exec demoHost crowded (Burn U2 2)"

definition blank :: appbound where
  "blank = run_ABL demoHost (constructor_AppBound admin) [MintTo admin U1 [] ''ipfs://blank'' 0]"

text \<open>Three tokens minted to \<open>U1\<close> with the empty application id.\<close>

definition hoard :: collectible where
  "hoard = run demoHost demoLedger
     (replicate 3 (MintCollectible admin U1 ''ipfs://art'' [] 0 True True 0 0))"

section \<open>The operations, case by case\<close>

text \<open>
  Each external function is rewritten as the list of its reverts, in the order in which
  the code reaches them, followed by the state it leaves.
\<close>

lemmas erc_defs = exists_token_def ownerOf_def tokenURI_def setTokenURI_def isApprovedOrOwner_def
  approve_def setApprovalForAll_def mint_def safeMint_def transfer_def transferFrom_def
  safeTransferFrom_def burnToken_def

text \<open>Unfolding everything evaluates a run on a concrete ledger.\<close>

lemmas run_defs = erc_defs increment_def noLicense_def constructor_Collectible_def
  beforeTokenTransfer_def licenseLogic_def setTokenRoyalty_def mintCollectible_def openMint_def
  batchMint_def redeem_def burn_def setOpenMinting_def setMerkleRoot_def setDefaultRoyalty_def
  setRole_def exec_def run_def constructor_AppBound_def beforeTokenTransfer_ABL_def mintTo_def
  burn_ABL_def transferOwnership_def renounceOwnership_def exec_ABL_def run_ABL_def
  demoHost_def admin_def U1_def U2_def U3_def demoLedger_def smallLedger_def mintDemo_def
  fullLedger_def crowded_def flagged_def seeded_def licensed_def paired_def moved_def recycled_def orphaned_def blank_def hoard_def Let_def

lemma increment_Inr: "increment x = Inr y \<longleftrightarrow> x \<noteq> - 1 \<and> y = x + 1"
  by (auto simp: increment_def)

lemma increment_Inl: "increment x = Inl e \<longleftrightarrow> x = - 1 \<and> e = Panic"
  by (auto simp: increment_def)

lemma less_not_max: "(x::uint256) < m \<Longrightarrow> x \<noteq> - 1"
  by (metis word_order.extremum_strict)

lemma less_increment: "(x::uint256) \<noteq> - 1 \<Longrightarrow> x < x + 1"
  using inc_less_eq_self_iff_eq [of x] by simp

lemma increment_nonzero: "(x::uint256) \<noteq> - 1 \<Longrightarrow> x + 1 \<noteq> 0"
  using max_word_wrap [of x] by blast

lemma unat_increment: "(x::uint256) \<noteq> - 1 \<Longrightarrow> unat (x + 1) = Suc (unat x)"
  using unatSuc [of x] max_word_wrap [of x] by (auto simp: add.commute)

lemma mintCollectible_eq:
  "mintCollectible h s sender to u a e sb ep rr rf =
     (if \<not> roles s MINTER_ROLE sender then Inl Unauthorized
      else if \<not> nextTokenId s < MAX_SUPPLY s then Inl CapacityExceeded
      else if to = 0 then Inl MintToZeroAddress
      else if owners s (nextTokenId s + 1) \<noteq> 0 then Inl TokenAlreadyMinted
      else if \<not> acceptsERC721 h to then Inl NonReceiver
      else if a \<noteq> [] \<and> userAppToken s to (keccak256 h a) \<noteq> 0 then Inl DuplicateLicense
      else if rr \<noteq> 0 \<and> 10000 < rf then Inl RoyaltyFeeTooHigh
      else Inr (minted h s to u a e sb ep rr rf, nextTokenId s + 1))"
  unfolding mintCollectible_def
  by (auto simp: increment_Inr increment_Inl minted_def erc_defs beforeTokenTransfer_def licenseLogic_def
      setTokenRoyalty_def Let_def split: sum.splits if_splits dest: less_not_max)

lemma openMint_eq:
  "openMint h s sender u a e sb ep prf =
     (if \<not> openMinting s then Inl OpenMintingDisabled
      else if \<not> nextTokenId s < MAX_SUPPLY s then Inl CapacityExceeded
      else if merkleRoot s \<noteq> 0 \<and> \<not> MerkleProof_verify h prf (merkleRoot s) (keccak256 h (encodePacked sender))
        then Inl NotAllowlisted
      else if sender = 0 then Inl MintToZeroAddress
      else if owners s (nextTokenId s + 1) \<noteq> 0 then Inl TokenAlreadyMinted
      else if \<not> acceptsERC721 h sender then Inl NonReceiver
      else if a \<noteq> [] \<and> userAppToken s sender (keccak256 h a) \<noteq> 0 then Inl DuplicateLicense
      else Inr (minted h s sender u a e sb ep 0 0, nextTokenId s + 1))"
  unfolding openMint_def
  by (auto simp: increment_Inr increment_Inl minted_def erc_defs beforeTokenTransfer_def licenseLogic_def
      Let_def split: sum.splits if_splits dest: less_not_max)

lemma transferFrom_eq:
  "transferFrom (beforeTokenTransfer h) s sender from to t =
     (if owners s t = 0 then Inl InvalidTokenId
      else if \<not> approved s sender t then Inl CallerNotApproved
      else if owners s t \<noteq> from then Inl TransferFromIncorrectOwner
      else if to = 0 then Inl TransferToZeroAddress
      else if soulbound (licenses s t) then Inl SoulboundLocked
      else Inr (transferred h s from to t))"
  by (auto simp: erc_defs approved_def beforeTokenTransfer_def transferred_def reindex_def Let_def
      split: sum.splits if_splits)

lemma safeTransferFrom_eq:
  "safeTransferFrom h (beforeTokenTransfer h) s sender from to t =
     (if owners s t = 0 then Inl InvalidTokenId
      else if \<not> approved s sender t then Inl CallerNotApproved
      else if owners s t \<noteq> from then Inl TransferFromIncorrectOwner
      else if to = 0 then Inl TransferToZeroAddress
      else if soulbound (licenses s t) then Inl SoulboundLocked
      else if \<not> acceptsERC721 h to then Inl NonReceiver
      else Inr (transferred h s from to t))"
  unfolding safeTransferFrom_def transferFrom_eq by simp

lemma burn_eq:
  "burn h s sender t =
     (if owners s t = 0 then Inl InvalidTokenId
      else if owners s t \<noteq> sender then Inl NotOwner
      else Inr (burned h s t))"
  by (auto simp: burn_def erc_defs beforeTokenTransfer_def burned_def Let_def
      split: sum.splits if_splits)

section \<open>The invariants hold in every reachable state\<close>

lemma mintedIds_append: "mintedIds (xs @ ys) = mintedIds xs @ mintedIds ys"
  by (induction xs rule: mintedIds.induct) auto

lemma firstIds_increment: "x \<noteq> - 1 \<Longrightarrow> firstIds (x + 1) = firstIds x @ [x + 1]"
  by (simp add: firstIds_def unat_increment)

lemma minted_fields:
  "nextTokenId (minted h s to u a e sb ep rr rf) = nextTokenId s + 1"
  "owners (minted h s to u a e sb ep rr rf) = (owners s)(nextTokenId s + 1 := to)"
  "MAX_SUPPLY (minted h s to u a e sb ep rr rf) = MAX_SUPPLY s"
  "events (minted h s to u a e sb ep rr rf) =
     events s @ Transfer 0 to (nextTokenId s + 1) # (if a = [] then [] else [LicenseMinted to (nextTokenId s + 1) a e])"
  "userAppToken (minted h s to u a e sb ep rr rf) =
     (if a = [] then userAppToken s else (userAppToken s)(to := (userAppToken s to)(keccak256 h a := nextTokenId s + 1)))"
  "licenses (minted h s to u a e sb ep rr rf) =
     (if a = [] then licenses s else (licenses s)(nextTokenId s + 1 := \<lparr>appId = a, expiry = e, soulbound = sb, ephemeral = ep\<rparr>))"
  "redeemed (minted h s to u a e sb ep rr rf) = redeemed s"
  "roles (minted h s to u a e sb ep rr rf) = roles s"
  "openMinting (minted h s to u a e sb ep rr rf) = openMinting s"
  by (simp_all add: minted_def Let_def)

lemma minted_inv:
  assumes inv: "ledger_inv h s" and lt: "nextTokenId s < MAX_SUPPLY s" and to: "to \<noteq> 0"
    and free: "a \<noteq> [] \<longrightarrow> userAppToken s to (keccak256 h a) = 0"
  shows "ledger_inv h (minted h s to u a e sb ep rr rf)"
proof -
  let ?n = "nextTokenId s" and ?s' = "minted h s to u a e sb ep rr rf"
  have nm: "?n \<noteq> - 1" using lt by (rule less_not_max)
  have lt1: "?n < ?n + 1" and nz: "?n + 1 \<noteq> 0"
    using nm by (simp_all add: less_increment increment_nonzero)
  from inv have tb: "tokens_bounded s" and ix: "index_sound h s" and il: "index_licensed s"
    and sq: "ids_sequential s" by (simp_all add: ledger_inv_def)
  have fresh: "owners s (?n + 1) = 0"
    using tb lt1 unfolding tokens_bounded_def by (metis leD)
  have old: "\<And>t. owners s t \<noteq> 0 \<Longrightarrow> t \<noteq> ?n + 1"
    using fresh by auto
  have idx_old: "\<And>u' a'. userAppToken s u' a' \<noteq> ?n + 1"
    using ix fresh nz to unfolding index_sound_def by metis
  have 1: "tokens_bounded ?s'"
    using tb lt1 nz unfolding tokens_bounded_def minted_fields
    by (auto simp: less_imp_le dest: order_trans)
  have 2: "index_sound h ?s'"
    using ix idx_old to unfolding index_sound_def minted_fields
    by (auto simp: fun_upd_def)
  have 3: "index_licensed ?s'"
    using il idx_old unfolding index_licensed_def minted_fields
    by (auto simp: fun_upd_def)
  have 4: "ids_sequential ?s'"
    using sq nm unfolding ids_sequential_def minted_fields
    by (simp add: mintedIds_append firstIds_increment)
  have 5: "nextTokenId ?s' \<le> MAX_SUPPLY ?s'"
    using lt unfolding minted_fields by (simp add: inc_le)
  show ?thesis using 1 2 3 4 5 by (simp add: ledger_inv_def)
qed

lemma transferred_fields:
  "nextTokenId (transferred h s from to t) = nextTokenId s"
  "owners (transferred h s from to t) = (owners s)(t := to)"
  "MAX_SUPPLY (transferred h s from to t) = MAX_SUPPLY s"
  "events (transferred h s from to t) = events s @ [Transfer from to t]"
  "userAppToken (transferred h s from to t) =
     (if appId (licenses s t) = [] then userAppToken s else reindex h s from to t)"
  "licenses (transferred h s from to t) = licenses s"
  "redeemed (transferred h s from to t) = redeemed s"
  "roles (transferred h s from to t) = roles s"
  "openMinting (transferred h s from to t) = openMinting s"
  by (simp_all add: transferred_def)

lemma reindex_slot:
  "reindex h s from to t u a =
     (if a = keccak256 h (appId (licenses s t)) \<and> u = to then t
      else if a = keccak256 h (appId (licenses s t)) \<and> u = from \<and> userAppToken s from a = t then 0
      else userAppToken s u a)"
  by (auto simp: reindex_def Let_def)

lemma reindex_sound:
  assumes ix: "index_sound h s" and own: "owners s t = from" and to: "to \<noteq> 0"
    and nz: "reindex h s from to t u a \<noteq> 0"
  shows "u \<noteq> 0 \<and> ((owners s)(t := to)) (reindex h s from to t u a) = u
         \<and> keccak256 h (appId (licenses s (reindex h s from to t u a))) = a"
proof (cases "a = keccak256 h (appId (licenses s t)) \<and> u = to")
  case True
  then show ?thesis using to by (simp add: reindex_slot)
next
  case False
  with nz have same: "reindex h s from to t u a = userAppToken s u a" and nz': "userAppToken s u a \<noteq> 0"
    by (auto simp: reindex_slot split: if_splits)
  from ix nz' have f: "u \<noteq> 0" "owners s (userAppToken s u a) = u"
    "keccak256 h (appId (licenses s (userAppToken s u a))) = a"
    unfolding index_sound_def by blast+
  have "userAppToken s u a \<noteq> t"
  proof
    assume eq: "userAppToken s u a = t"
    with f own have "u = from" "a = keccak256 h (appId (licenses s t))" by auto
    with nz eq False show False by (simp add: reindex_slot)
  qed
  with f same show ?thesis by simp
qed

lemma transferred_inv:
  assumes inv: "ledger_inv h s" and own: "owners s t = from" and fnz: "from \<noteq> 0" and to: "to \<noteq> 0"
  shows "ledger_inv h (transferred h s from to t)"
proof -
  let ?s' = "transferred h s from to t"
  from inv have tb: "tokens_bounded s" and ix: "index_sound h s" and il: "index_licensed s"
    and sq: "ids_sequential s" and cap: "nextTokenId s \<le> MAX_SUPPLY s"
    by (simp_all add: ledger_inv_def)
  have tnz: "owners s t \<noteq> 0" using own fnz by simp
  have 1: "tokens_bounded ?s'"
    using tb tnz unfolding tokens_bounded_def transferred_fields by auto
  have untouched: "\<And>u a. appId (licenses s t) = [] \<Longrightarrow> userAppToken s u a \<noteq> 0 \<Longrightarrow> userAppToken s u a \<noteq> t"
    using il unfolding index_licensed_def by metis
  have 2: "index_sound h ?s'"
  proof (cases "appId (licenses s t) = []")
    case True
    then show ?thesis
      using ix untouched unfolding index_sound_def transferred_fields by auto
  next
    case False
    then show ?thesis
      using reindex_sound [OF ix own to] unfolding index_sound_def transferred_fields by simp
  qed
  have 3: "index_licensed ?s'"
    using il unfolding index_licensed_def transferred_fields
    by (auto simp: reindex_slot)
  have 4: "ids_sequential ?s'"
    using sq fnz unfolding ids_sequential_def transferred_fields
    by (simp add: mintedIds_append)
  show ?thesis using 1 2 3 4 cap by (simp add: ledger_inv_def transferred_fields)
qed

lemma burned_fields:
  "nextTokenId (burned h s t) = nextTokenId s"
  "owners (burned h s t) = (owners s)(t := 0)"
  "MAX_SUPPLY (burned h s t) = MAX_SUPPLY s"
  "events (burned h s t) = events s @ [Transfer (owners s t) 0 t]"
  "userAppToken (burned h s t) =
     (if appId (licenses s t) = [] then userAppToken s
      else (userAppToken s)(owners s t := (userAppToken s (owners s t))(keccak256 h (appId (licenses s t)) := 0)))"
  "licenses (burned h s t) = (if appId (licenses s t) = [] then licenses s else (licenses s)(t := noLicense))"
  "redeemed (burned h s t) = redeemed s"
  "roles (burned h s t) = roles s"
  "openMinting (burned h s t) = openMinting s"
  by (simp_all add: burned_def)

lemma burned_inv:
  assumes inv: "ledger_inv h s" and tnz: "owners s t \<noteq> 0"
  shows "ledger_inv h (burned h s t)"
proof -
  let ?s' = "burned h s t"
  from inv have tb: "tokens_bounded s" and ix: "index_sound h s" and il: "index_licensed s"
    and sq: "ids_sequential s" and cap: "nextTokenId s \<le> MAX_SUPPLY s"
    by (simp_all add: ledger_inv_def)
  have 1: "tokens_bounded ?s'"
    using tb unfolding tokens_bounded_def burned_fields by auto
  have tz: "t \<noteq> 0"
    using tb tnz unfolding tokens_bounded_def by blast
  have slot: "u = owners s t \<and> a = keccak256 h (appId (licenses s t)) \<and> appId (licenses s t) \<noteq> []"
    if "userAppToken s u a = t" for u a
  proof -
    from that tz have nz: "userAppToken s u a \<noteq> 0" by simp
    from ix nz have "owners s (userAppToken s u a) = u"
      "keccak256 h (appId (licenses s (userAppToken s u a))) = a"
      unfolding index_sound_def by blast+
    moreover from il nz have "appId (licenses s (userAppToken s u a)) \<noteq> []"
      unfolding index_licensed_def by blast
    ultimately show ?thesis using that by simp
  qed
  have 2: "index_sound h ?s'"
    unfolding index_sound_def burned_fields
  proof (intro allI impI)
    fix u a
    let ?i = "(if appId (licenses s t) = [] then userAppToken s
      else (userAppToken s)(owners s t := (userAppToken s (owners s t))(keccak256 h (appId (licenses s t)) := 0)))"
    assume nz: "?i u a \<noteq> 0"
    then have same: "?i u a = userAppToken s u a" and nz': "userAppToken s u a \<noteq> 0"
      by (auto split: if_splits)
    have ne: "userAppToken s u a \<noteq> t"
    proof
      assume "userAppToken s u a = t"
      from slot [OF this] have "?i u a = 0" by simp
      with nz show False by simp
    qed
    from ix nz' have "u \<noteq> 0" "owners s (userAppToken s u a) = u"
      "keccak256 h (appId (licenses s (userAppToken s u a))) = a"
      unfolding index_sound_def by blast+
    with ne same show "u \<noteq> 0 \<and> ((owners s)(t := 0)) (?i u a) = u \<and>
        keccak256 h (appId ((if appId (licenses s t) = [] then licenses s else (licenses s)(t := noLicense)) (?i u a))) = a"
      by simp
  qed
  have 3: "index_licensed ?s'"
    unfolding index_licensed_def burned_fields
  proof (intro allI impI)
    fix u a
    let ?i = "(if appId (licenses s t) = [] then userAppToken s
      else (userAppToken s)(owners s t := (userAppToken s (owners s t))(keccak256 h (appId (licenses s t)) := 0)))"
    assume nz: "?i u a \<noteq> 0"
    then have same: "?i u a = userAppToken s u a" and nz': "userAppToken s u a \<noteq> 0"
      by (auto split: if_splits)
    have ne: "userAppToken s u a \<noteq> t"
    proof
      assume "userAppToken s u a = t"
      from slot [OF this] have "?i u a = 0" by simp
      with nz show False by simp
    qed
    from il nz' have "appId (licenses s (userAppToken s u a)) \<noteq> []"
      unfolding index_licensed_def by blast
    with ne same show "appId ((if appId (licenses s t) = [] then licenses s else (licenses s)(t := noLicense)) (?i u a)) \<noteq> []"
      by simp
  qed
  have 4: "ids_sequential ?s'"
    using sq tnz unfolding ids_sequential_def burned_fields
    by (simp add: mintedIds_append)
  show ?thesis using 1 2 3 4 cap by (simp add: ledger_inv_def burned_fields)
qed

lemma ledger_inv_frame:
  assumes inv: "ledger_inv h s"
    and eqs: "owners s' = owners s" "nextTokenId s' = nextTokenId s" "userAppToken s' = userAppToken s"
    "licenses s' = licenses s" "mintedIds (events s') = mintedIds (events s)" "MAX_SUPPLY s' = MAX_SUPPLY s"
  shows "ledger_inv h s'"
proof -
  have "tokens_bounded s' = tokens_bounded s"
    unfolding tokens_bounded_def by (simp only: eqs)
  moreover have "index_sound h s' = index_sound h s"
    unfolding index_sound_def by (simp only: eqs)
  moreover have "index_licensed s' = index_licensed s"
    unfolding index_licensed_def by (simp only: eqs)
  moreover have "ids_sequential s' = ids_sequential s"
    unfolding ids_sequential_def by (simp only: eqs)
  ultimately show ?thesis
    using inv unfolding ledger_inv_def by (simp only: eqs)
qed

lemma constructor_inv:
  "constructor_Collectible d m r f = Inr s0 \<Longrightarrow> ledger_inv h s0"
  by (auto simp: constructor_Collectible_def ledger_inv_def tokens_bounded_def index_sound_def
      index_licensed_def ids_sequential_def firstIds_def split: if_splits)

lemma mintCollectible_inv:
  assumes "ledger_inv h s" "mintCollectible h s sender to u a e sb ep rr rf = Inr (s', t)"
  shows "ledger_inv h s'"
proof -
  from assms(2) have "nextTokenId s < MAX_SUPPLY s" "to \<noteq> 0"
    "a \<noteq> [] \<longrightarrow> userAppToken s to (keccak256 h a) = 0" "s' = minted h s to u a e sb ep rr rf"
    by (auto simp: mintCollectible_eq split: if_splits)
  with assms(1) show ?thesis by (simp add: minted_inv)
qed

lemma openMint_inv:
  assumes "ledger_inv h s" "openMint h s sender u a e sb ep prf = Inr (s', t)"
  shows "ledger_inv h s'"
proof -
  from assms(2) have "nextTokenId s < MAX_SUPPLY s" "sender \<noteq> 0"
    "a \<noteq> [] \<longrightarrow> userAppToken s sender (keccak256 h a) = 0" "s' = minted h s sender u a e sb ep 0 0"
    by (auto simp: openMint_eq split: if_splits)
  with assms(1) show ?thesis by (simp add: minted_inv)
qed

lemma mintEach_inv:
  "ledger_inv h s \<Longrightarrow> mintEach h s sender rs = Inr s' \<Longrightarrow> ledger_inv h s'"
proof (induction rs arbitrary: s)
  case Nil
  then show ?case by simp
next
  case (Cons r rs)
  then show ?case
    by (auto split: prod.splits sum.splits dest: mintCollectible_inv)
qed

lemma dispatch_inv:
  assumes inv: "ledger_inv h s" and ok: "dispatch h s c = Inr s'"
  shows "ledger_inv h s'"
proof (cases c)
  case (MintCollectible sender to u a e sb ep rr rf)
  with ok inv show ?thesis
    by (auto split: sum.splits dest: mintCollectible_inv)
next
  case (OpenMint sender u a e sb ep pf)
  with ok inv show ?thesis
    by (auto split: sum.splits dest: openMint_inv)
next
  case (BatchMint sender rs us aps es sbs eps rrs rfs)
  with ok inv show ?thesis
    by (auto simp: batchMint_def split: if_splits dest: mintEach_inv)
next
  case (Redeem sender t)
  with ok show ?thesis
    by (intro ledger_inv_frame [OF inv]) (auto simp: redeem_def ownerOf_def Let_def mintedIds_append split: if_splits)
next
  case (Burn sender t)
  with ok have "owners s t \<noteq> 0" "s' = burned h s t"
    by (simp_all add: burn_eq split: if_splits)
  with inv show ?thesis by (simp add: burned_inv)
next
  case (TransferFrom sender src dst t)
  with ok have "owners s t = src" "src \<noteq> 0" "dst \<noteq> 0" "s' = transferred h s src dst t"
    by (auto simp: transferFrom_eq split: if_splits)
  with inv show ?thesis by (simp add: transferred_inv)
next
  case (SafeTransferFrom sender src dst t)
  with ok have "owners s t = src" "src \<noteq> 0" "dst \<noteq> 0" "s' = transferred h s src dst t"
    by (auto simp: safeTransferFrom_eq split: if_splits)
  with inv show ?thesis by (simp add: transferred_inv)
next
  case (Approve sender dst t)
  with ok show ?thesis
    by (intro ledger_inv_frame [OF inv]) (auto simp: approve_def ownerOf_def split: if_splits)
next
  case (SetApprovalForAll sender operator approved)
  with ok show ?thesis
    by (intro ledger_inv_frame [OF inv]) (auto simp: setApprovalForAll_def split: if_splits)
next
  case (SetOpenMinting sender enabled)
  with ok show ?thesis
    by (intro ledger_inv_frame [OF inv]) (auto simp: setOpenMinting_def split: if_splits)
next
  case (SetMerkleRoot sender newRoot)
  with ok show ?thesis
    by (intro ledger_inv_frame [OF inv]) (auto simp: setMerkleRoot_def split: if_splits)
next
  case (SetDefaultRoyalty sender receiver fee)
  with ok show ?thesis
    by (intro ledger_inv_frame [OF inv]) (auto simp: setDefaultRoyalty_def split: if_splits)
next
  case (GrantRole sender r account)
  with ok show ?thesis
    by (intro ledger_inv_frame [OF inv]) (auto simp: setRole_def split: if_splits)
next
  case (RevokeRole sender r account)
  with ok show ?thesis
    by (intro ledger_inv_frame [OF inv]) (auto simp: setRole_def split: if_splits)
qed

lemma exec_inv: "ledger_inv h s \<Longrightarrow> ledger_inv h (exec h s c)"
  by (auto simp: exec_def split: sum.splits dest: dispatch_inv)

lemma run_inv: "ledger_inv h s \<Longrightarrow> ledger_inv h (run h s cs)"
  unfolding run_def by (induction cs arbitrary: s) (simp_all add: exec_inv)

subsection \<open>AppBoundLicense\<close>

lemma mintTo_eq:
  "mintTo h s sender to a u e =
     (if sender \<noteq> ownable_owner s then Inl Unauthorized
      else if userAppToken s to (keccak256 h a) \<noteq> 0 then Inl DuplicateLicense
      else if nextTokenId s = - 1 then Inl Panic
      else if to = 0 then Inl MintToZeroAddress
      else if owners s (nextTokenId s + 1) \<noteq> 0 then Inl TokenAlreadyMinted
      else if \<not> acceptsERC721 h to then Inl NonReceiver
      else Inr (minted_ABL h s to a u e, nextTokenId s + 1))"
  unfolding mintTo_def
  by (auto simp: increment_Inr increment_Inl minted_ABL_def erc_defs beforeTokenTransfer_ABL_def
      Let_def split: sum.splits if_splits)

lemma transferFrom_ABL_eq:
  "transferFrom (beforeTokenTransfer_ABL h) s sender from to t =
     (if owners s t = 0 then Inl InvalidTokenId
      else if \<not> approved s sender t then Inl CallerNotApproved
      else if owners s t \<noteq> from then Inl TransferFromIncorrectOwner
      else if to = 0 then Inl TransferToZeroAddress
      else Inr (transferred_ABL h s from to t))"
  by (auto simp: erc_defs approved_def beforeTokenTransfer_ABL_def transferred_ABL_def reindex_def Let_def
      split: sum.splits if_splits)

lemma safeTransferFrom_ABL_eq:
  "safeTransferFrom h (beforeTokenTransfer_ABL h) s sender from to t =
     (if owners s t = 0 then Inl InvalidTokenId
      else if \<not> approved s sender t then Inl CallerNotApproved
      else if owners s t \<noteq> from then Inl TransferFromIncorrectOwner
      else if to = 0 then Inl TransferToZeroAddress
      else if \<not> acceptsERC721 h to then Inl NonReceiver
      else Inr (transferred_ABL h s from to t))"
  unfolding safeTransferFrom_def transferFrom_ABL_eq by simp

lemma burn_ABL_eq:
  "burn_ABL h s sender t =
     (if owners s t = 0 then Inl InvalidTokenId
      else if owners s t \<noteq> sender then Inl NotOwner
      else Inr (burned_ABL h s t))"
  by (auto simp: burn_ABL_def erc_defs beforeTokenTransfer_ABL_def burned_ABL_def Let_def
      split: sum.splits if_splits)

lemma minted_ABL_fields:
  "nextTokenId (minted_ABL h s to a u e) = nextTokenId s + 1"
  "owners (minted_ABL h s to a u e) = (owners s)(nextTokenId s + 1 := to)"
  "events (minted_ABL h s to a u e) =
     events s @ [Transfer 0 to (nextTokenId s + 1), LicenseMinted to (nextTokenId s + 1) a e]"
  "userAppToken (minted_ABL h s to a u e) =
     (userAppToken s)(to := (userAppToken s to)(keccak256 h a := nextTokenId s + 1))"
  "licenses (minted_ABL h s to a u e) = (licenses s)(nextTokenId s + 1 := \<lparr>appId = a, expiry = e\<rparr>)"
  by (simp_all add: minted_ABL_def Let_def)

lemma minted_ABL_inv:
  assumes inv: "ledger_inv_ABL h s" and nm: "nextTokenId s \<noteq> - 1" and to: "to \<noteq> 0"
    and free: "userAppToken s to (keccak256 h a) = 0"
  shows "ledger_inv_ABL h (minted_ABL h s to a u e)"
proof -
  let ?n = "nextTokenId s" and ?s' = "minted_ABL h s to a u e"
  have lt1: "?n < ?n + 1" and nz: "?n + 1 \<noteq> 0"
    using nm by (simp_all add: less_increment increment_nonzero)
  from inv have tb: "tokens_bounded s" and ix: "index_sound h s"
    and sq: "ids_sequential s" by (simp_all add: ledger_inv_ABL_def)
  have fresh: "owners s (?n + 1) = 0"
    using tb lt1 unfolding tokens_bounded_def by (metis leD)
  have idx_old: "\<And>u' a'. userAppToken s u' a' \<noteq> ?n + 1"
    using ix fresh nz to unfolding index_sound_def by metis
  have 1: "tokens_bounded ?s'"
    using tb lt1 nz unfolding tokens_bounded_def minted_ABL_fields
    by (auto simp: less_imp_le dest: order_trans)
  have 2: "index_sound h ?s'"
    using ix idx_old to unfolding index_sound_def minted_ABL_fields
    by (auto simp: fun_upd_def)
  have 4: "ids_sequential ?s'"
    using sq nm unfolding ids_sequential_def minted_ABL_fields
    by (simp add: mintedIds_append firstIds_increment)
  show ?thesis using 1 2 4 by (simp add: ledger_inv_ABL_def)
qed

lemma transferred_ABL_fields:
  "nextTokenId (transferred_ABL h s from to t) = nextTokenId s"
  "owners (transferred_ABL h s from to t) = (owners s)(t := to)"
  "events (transferred_ABL h s from to t) = events s @ [Transfer from to t]"
  "userAppToken (transferred_ABL h s from to t) = reindex h s from to t"
  "licenses (transferred_ABL h s from to t) = licenses s"
  by (simp_all add: transferred_ABL_def)

lemma transferred_ABL_inv:
  assumes inv: "ledger_inv_ABL h s" and own: "owners s t = from" and fnz: "from \<noteq> 0" and to: "to \<noteq> 0"
  shows "ledger_inv_ABL h (transferred_ABL h s from to t)"
proof -
  let ?s' = "transferred_ABL h s from to t"
  from inv have tb: "tokens_bounded s" and ix: "index_sound h s"
    and sq: "ids_sequential s"
    by (simp_all add: ledger_inv_ABL_def)
  have tnz: "owners s t \<noteq> 0" using own fnz by simp
  have 1: "tokens_bounded ?s'"
    using tb tnz unfolding tokens_bounded_def transferred_ABL_fields by auto
  have 2: "index_sound h ?s'"
    using reindex_sound [OF ix own to] unfolding index_sound_def transferred_ABL_fields by simp
  have 4: "ids_sequential ?s'"
    using sq fnz unfolding ids_sequential_def transferred_ABL_fields
    by (simp add: mintedIds_append)
  show ?thesis using 1 2 4 by (simp add: ledger_inv_ABL_def)
qed

lemma burned_ABL_fields:
  "nextTokenId (burned_ABL h s t) = nextTokenId s"
  "owners (burned_ABL h s t) = (owners s)(t := 0)"
  "events (burned_ABL h s t) = events s @ [Transfer (owners s t) 0 t, LicenseBurned (owners s t) t]"
  "userAppToken (burned_ABL h s t) =
     (userAppToken s)(owners s t := (userAppToken s (owners s t))(keccak256 h (appId (licenses s t)) := 0))"
  "licenses (burned_ABL h s t) = (licenses s)(t := \<lparr>appId = [], expiry = 0\<rparr>)"
  by (simp_all add: burned_ABL_def)

lemma burned_ABL_inv:
  assumes inv: "ledger_inv_ABL h s" and tnz: "owners s t \<noteq> 0"
  shows "ledger_inv_ABL h (burned_ABL h s t)"
proof -
  let ?s' = "burned_ABL h s t"
  from inv have tb: "tokens_bounded s" and ix: "index_sound h s"
    and sq: "ids_sequential s"
    by (simp_all add: ledger_inv_ABL_def)
  have 1: "tokens_bounded ?s'"
    using tb unfolding tokens_bounded_def burned_ABL_fields by auto
  have tz: "t \<noteq> 0"
    using tb tnz unfolding tokens_bounded_def by blast
  have slot: "u = owners s t \<and> a = keccak256 h (appId (licenses s t))"
    if "userAppToken s u a = t" for u a
  proof -
    from that tz have nz: "userAppToken s u a \<noteq> 0" by simp
    from ix nz have "owners s (userAppToken s u a) = u"
      "keccak256 h (appId (licenses s (userAppToken s u a))) = a"
      unfolding index_sound_def by blast+
    then show ?thesis using that by simp
  qed
  have 2: "index_sound h ?s'"
    unfolding index_sound_def burned_ABL_fields
  proof (intro allI impI)
    fix u a
    let ?i = "(userAppToken s)(owners s t := (userAppToken s (owners s t))(keccak256 h (appId (licenses s t)) := 0))"
    assume nz: "?i u a \<noteq> 0"
    then have same: "?i u a = userAppToken s u a" and nz': "userAppToken s u a \<noteq> 0"
      by (auto split: if_splits)
    have ne: "userAppToken s u a \<noteq> t"
    proof
      assume "userAppToken s u a = t"
      from slot [OF this] have "?i u a = 0" by simp
      with nz show False by simp
    qed
    from ix nz' have "u \<noteq> 0" "owners s (userAppToken s u a) = u"
      "keccak256 h (appId (licenses s (userAppToken s u a))) = a"
      unfolding index_sound_def by blast+
    with ne same show "u \<noteq> 0 \<and> ((owners s)(t := 0)) (?i u a) = u \<and>
        keccak256 h (appId (((licenses s)(t := \<lparr>appId = [], expiry = 0\<rparr>)) (?i u a))) = a"
      by simp
  qed
  have 4: "ids_sequential ?s'"
    using sq tnz unfolding ids_sequential_def burned_ABL_fields
    by (simp add: mintedIds_append)
  show ?thesis using 1 2 4 by (simp add: ledger_inv_ABL_def)
qed

lemma ledger_inv_ABL_frame:
  assumes inv: "ledger_inv_ABL h s"
    and eqs: "owners s' = owners s" "nextTokenId s' = nextTokenId s" "userAppToken s' = userAppToken s"
    "licenses s' = licenses s" "mintedIds (events s') = mintedIds (events s)"
  shows "ledger_inv_ABL h s'"
proof -
  have "tokens_bounded s' = tokens_bounded s"
    unfolding tokens_bounded_def by (simp only: eqs)
  moreover have "index_sound h s' = index_sound h s"
    unfolding index_sound_def by (simp only: eqs)
  moreover have "ids_sequential s' = ids_sequential s"
    unfolding ids_sequential_def by (simp only: eqs)
  ultimately show ?thesis
    using inv unfolding ledger_inv_ABL_def by (simp only: eqs)
qed

lemma constructor_ABL_inv: "ledger_inv_ABL h (constructor_AppBound d)"
  by (simp add: constructor_AppBound_def ledger_inv_ABL_def tokens_bounded_def index_sound_def
      ids_sequential_def firstIds_def)

lemma dispatch_ABL_inv:
  assumes inv: "ledger_inv_ABL h s" and ok: "dispatch_ABL h s c = Inr s'"
  shows "ledger_inv_ABL h s'"
proof (cases c)
  case (MintTo sender dst a u e)
  with ok have "nextTokenId s \<noteq> - 1" "dst \<noteq> 0" "userAppToken s dst (keccak256 h a) = 0"
    "s' = minted_ABL h s dst a u e"
    by (auto simp: mintTo_eq split: if_splits)
  with inv show ?thesis by (simp add: minted_ABL_inv)
next
  case (Burn_ABL sender t)
  with ok have "owners s t \<noteq> 0" "s' = burned_ABL h s t"
    by (simp_all add: burn_ABL_eq split: if_splits)
  with inv show ?thesis by (simp add: burned_ABL_inv)
next
  case (TransferFrom_ABL sender src dst t)
  with ok have "owners s t = src" "src \<noteq> 0" "dst \<noteq> 0" "s' = transferred_ABL h s src dst t"
    by (auto simp: transferFrom_ABL_eq split: if_splits)
  with inv show ?thesis by (simp add: transferred_ABL_inv)
next
  case (SafeTransferFrom_ABL sender src dst t)
  with ok have "owners s t = src" "src \<noteq> 0" "dst \<noteq> 0" "s' = transferred_ABL h s src dst t"
    by (auto simp: safeTransferFrom_ABL_eq split: if_splits)
  with inv show ?thesis by (simp add: transferred_ABL_inv)
next
  case (Approve_ABL sender dst t)
  with ok show ?thesis
    by (intro ledger_inv_ABL_frame [OF inv]) (auto simp: approve_def ownerOf_def split: if_splits)
next
  case (SetApprovalForAll_ABL sender operator approved)
  with ok show ?thesis
    by (intro ledger_inv_ABL_frame [OF inv]) (auto simp: setApprovalForAll_def split: if_splits)
next
  case (TransferOwnership sender newOwner)
  with ok show ?thesis
    by (intro ledger_inv_ABL_frame [OF inv]) (auto simp: transferOwnership_def split: if_splits)
next
  case (RenounceOwnership sender)
  with ok show ?thesis
    by (intro ledger_inv_ABL_frame [OF inv]) (auto simp: renounceOwnership_def split: if_splits)
qed

lemma exec_ABL_inv: "ledger_inv_ABL h s \<Longrightarrow> ledger_inv_ABL h (exec_ABL h s c)"
  by (auto simp: exec_ABL_def split: sum.splits dest: dispatch_ABL_inv)

lemma run_ABL_inv: "ledger_inv_ABL h s \<Longrightarrow> ledger_inv_ABL h (run_ABL h s cs)"
  unfolding run_ABL_def by (induction cs arbitrary: s) (simp_all add: exec_ABL_inv)

subsection \<open>Further facts about runs\<close>

lemma isApprovedOrOwner_eq:
  "isApprovedOrOwner s sender t =
     (if owners s t = 0 then Inl InvalidTokenId else Inr (approved s sender t))"
  by (simp add: isApprovedOrOwner_def ownerOf_def approved_def)

lemma dispatch_MAX_SUPPLY: "dispatch h s c = Inr s' \<Longrightarrow> MAX_SUPPLY s' = MAX_SUPPLY s"
proof (induction c arbitrary: s s')
  case (BatchMint sender rs us aps es sbs eps rrs rfs)
  have each: "mintEach h s sender xs = Inr s' \<Longrightarrow> MAX_SUPPLY s' = MAX_SUPPLY s" for xs s s'
    by (induction xs arbitrary: s)
      (auto simp: mintCollectible_eq minted_fields split: prod.splits sum.splits if_splits)
  from BatchMint show ?case
    by (auto simp: batchMint_def split: if_splits dest: each)
qed (auto simp: mintCollectible_eq openMint_eq minted_fields redeem_def ownerOf_def Let_def burn_eq
      burned_fields transferFrom_eq safeTransferFrom_eq transferred_fields approve_def
      setApprovalForAll_def setOpenMinting_def setMerkleRoot_def setDefaultRoyalty_def setRole_def
      split: sum.splits if_splits)

lemma run_MAX_SUPPLY: "MAX_SUPPLY (run h s cs) = MAX_SUPPLY s"
  unfolding run_def
  by (induction cs arbitrary: s) (auto simp: exec_def split: sum.splits dest: dispatch_MAX_SUPPLY)

lemma length_firstIds: "length (firstIds n) = unat n"
  by (simp add: firstIds_def)

lemma constructor_MAX_SUPPLY: "constructor_Collectible d m r f = Inr s0 \<Longrightarrow> MAX_SUPPLY s0 = m"
  by (auto simp: constructor_Collectible_def split: if_splits)

lemma unat_small: "k \<le> unat (n :: uint256) \<Longrightarrow> unat (word_of_nat k :: uint256) = k"
proof -
  assume "k \<le> unat n"
  moreover have "unat n < 2 ^ LENGTH(256)" by (rule unsigned_less)
  ultimately have "k < 2 ^ LENGTH(256)" by (rule le_less_trans)
  then show ?thesis by (simp add: unat_of_nat)
qed

lemma distinct_firstIds: "distinct (firstIds n)"
proof -
  have "inj_on (word_of_nat :: nat \<Rightarrow> uint256) (set [1..<Suc (unat n)])"
  proof (rule inj_onI)
    fix x y
    assume x: "x \<in> set [1..<Suc (unat n)]" and y: "y \<in> set [1..<Suc (unat n)]"
      and eq: "(word_of_nat x :: uint256) = word_of_nat y"
    from x have "x \<le> unat n" by auto
    then have ux: "unat (word_of_nat x :: uint256) = x" by (rule unat_small)
    from y have "y \<le> unat n" by auto
    then have uy: "unat (word_of_nat y :: uint256) = y" by (rule unat_small)
    from eq have "unat (word_of_nat x :: uint256) = unat (word_of_nat y :: uint256)"
      by (rule arg_cong)
    then show "x = y" unfolding ux uy .
  qed
  then show ?thesis by (simp add: firstIds_def distinct_map)
qed

lemma zero_notin_firstIds: "0 \<notin> set (firstIds n)"
proof
  assume "0 \<in> set (firstIds n)"
  then obtain k where k: "1 \<le> k" "k \<le> unat n" and z: "(word_of_nat k :: uint256) = 0"
    by (auto simp: firstIds_def)
  from k(2) have "unat (word_of_nat k :: uint256) = k" by (rule unat_small)
  with z k show False by simp
qed

subsection \<open>The issuance service\<close>





lemma issueAccess_tokenId:
  "issueAccess h s now w a = Credential w' a' t \<Longrightarrow> t = userAppToken s w (keccak256 h a) \<and> t \<noteq> 0"
  by (auto simp: issueAccess_def Let_def split: if_splits sum.splits prod.splits)

lemma checkLicense_tokenId:
  "checkLicense h s w a = Inr (t, uri, x) \<Longrightarrow> t = userAppToken s w (keccak256 h a)"
  by (auto simp: checkLicense_def Let_def split: if_splits sum.splits)

subsection \<open>Repeated mints without an application id\<close>

lemma run_Cons: "run h s (c # cs) = run h (exec h s c) cs"
  by (simp add: run_def)

lemma hoarding:
  assumes "ledger_inv h s" and "roles s MINTER_ROLE sender" and "to \<noteq> 0" and "acceptsERC721 h to"
    and "unat (nextTokenId s) + n \<le> unat (MAX_SUPPLY s)"
  shows "ledger_inv h (run h s (replicate n (MintCollectible sender to u [] e sb ep 0 0)))
    \<and> unat (nextTokenId (run h s (replicate n (MintCollectible sender to u [] e sb ep 0 0))))
        = unat (nextTokenId s) + n
    \<and> userAppToken (run h s (replicate n (MintCollectible sender to u [] e sb ep 0 0))) = userAppToken s
    \<and> licenses (run h s (replicate n (MintCollectible sender to u [] e sb ep 0 0))) = licenses s
    \<and> (\<forall>t :: uint256. owners (run h s (replicate n (MintCollectible sender to u [] e sb ep 0 0))) t =
          (if unat (nextTokenId s) < unat t \<and> unat t \<le> unat (nextTokenId s) + n then to
           else owners s t))"
  using assms
proof (induction n arbitrary: s)
  case 0
  then show ?case by (auto simp: run_def)
next
  case (Suc n)
  let ?c = "MintCollectible sender to u [] e sb ep 0 0"
  let ?s1 = "minted h s to u [] e sb ep 0 0"
  from Suc.prems(5) have "unat (nextTokenId s) < unat (MAX_SUPPLY s)" by simp
  then have lt: "nextTokenId s < MAX_SUPPLY s" by (simp add: word_less_nat_alt)
  then have nm: "nextTokenId s \<noteq> - 1" by (rule less_not_max)
  then have lt1: "nextTokenId s < nextTokenId s + 1" by (rule less_increment)
  from Suc.prems(1) have tb: "tokens_bounded s" by (simp add: ledger_inv_def)
  have fresh: "owners s (nextTokenId s + 1) = 0"
    using tb lt1 unfolding tokens_bounded_def by (metis leD)
  have step: "exec h s ?c = ?s1"
    using Suc.prems(2,3,4) lt fresh by (simp add: exec_def mintCollectible_eq)
  have inv1: "ledger_inv h ?s1"
    using Suc.prems(1) lt Suc.prems(3) by (intro minted_inv) simp_all
  have n1: "unat (nextTokenId ?s1) = Suc (unat (nextTokenId s))"
    using nm by (simp add: minted_fields unat_increment)
  have cap1: "unat (nextTokenId ?s1) + n \<le> unat (MAX_SUPPLY ?s1)"
    using Suc.prems(5) n1 by (simp add: minted_fields)
  have role1: "roles ?s1 MINTER_ROLE sender"
    using Suc.prems(2) by (simp add: minted_fields)
  note IH = Suc.IH [OF inv1 role1 Suc.prems(3) Suc.prems(4) cap1]
  have run1: "run h s (replicate (Suc n) ?c) = run h ?s1 (replicate n ?c)"
    by (simp add: run_Cons step)
  have own1: "owners ?s1 t = (if unat t = Suc (unat (nextTokenId s)) then to else owners s t)" for t
  proof -
    have "t = nextTokenId s + 1 \<longleftrightarrow> unat t = Suc (unat (nextTokenId s))"
      using nm by (simp add: word_unat_eq_iff unat_increment)
    then show ?thesis by (simp add: minted_fields)
  qed
  from IH have o: "owners (run h ?s1 (replicate n ?c)) t =
      (if unat (nextTokenId ?s1) < unat t \<and> unat t \<le> unat (nextTokenId ?s1) + n then to
       else owners ?s1 t)" for t
    by blast
  have o': "owners (run h ?s1 (replicate n ?c)) t =
      (if unat (nextTokenId s) < unat t \<and> unat t \<le> unat (nextTokenId s) + Suc n then to
       else owners s t)" for t
    unfolding o own1 n1 by auto
  from IH have "ledger_inv h (run h ?s1 (replicate n ?c))"
    "unat (nextTokenId (run h ?s1 (replicate n ?c))) = unat (nextTokenId s) + Suc n"
    "userAppToken (run h ?s1 (replicate n ?c)) = userAppToken s"
    "licenses (run h ?s1 (replicate n ?c)) = licenses s"
    by (simp_all add: minted_fields unat_increment [OF nm])
  with o' show ?case
    unfolding run1 by blast
qed

lemma index_bounded:
  assumes "ledger_inv h s" and "unat (nextTokenId s) < unat t"
  shows "userAppToken s w k \<noteq> t"
proof
  assume eq: "userAppToken s w k = t"
  from assms(2) have "t \<noteq> 0" by auto
  with eq have nz: "userAppToken s w k \<noteq> 0" by simp
  from assms(1) have "index_sound h s" "tokens_bounded s" by (simp_all add: ledger_inv_def)
  with nz have "owners s (userAppToken s w k) \<noteq> 0"
    unfolding index_sound_def by metis
  with \<open>tokens_bounded s\<close> have "userAppToken s w k \<le> nextTokenId s"
    unfolding tokens_bounded_def by blast
  with eq assms(2) show False by (simp add: word_le_nat_alt)
qed

section \<open>The concrete ledgers, evaluated\<close>

lemma flagged_facts:
  "owners flagged 1 = U1" "owners flagged 2 = U2"
  "soulbound (licenses flagged 1)" "\<not> ephemeral (licenses flagged 1)"
  "ephemeral (licenses flagged 2)" "\<not> redeemed flagged 2" "\<not> soulbound (licenses flagged 2)"
  by (simp_all add: run_defs)

lemma accounts_distinct:
  "U1 \<noteq> 0" "U2 \<noteq> 0" "U3 \<noteq> 0" "0 \<noteq> U3" "U1 \<noteq> U2" "U3 \<noteq> U1"
  by (simp_all add: U1_def U2_def U3_def)

lemma flagged_approvals:
  "tokenApprovals flagged 1 = 0" "\<not> operatorApprovals flagged U1 U3"
  by (simp_all add: run_defs)

lemma demoLedger_deployed: "constructor_Collectible admin 10 admin 0 = Inr demoLedger"
  by (simp add: demoLedger_def constructor_Collectible_def admin_def)

lemma smallLedger_deployed: "constructor_Collectible admin 1 admin 0 = Inr smallLedger"
  by (simp add: smallLedger_def constructor_Collectible_def admin_def)

lemma demoLedger_facts:
  "roles demoLedger MINTER_ROLE admin" "\<not> roles demoLedger MINTER_ROLE U1"
  "nextTokenId demoLedger = 0" "MAX_SUPPLY demoLedger = 10"
  by (simp_all add: run_defs)

lemma fullLedger_facts:
  "nextTokenId fullLedger = 1" "MAX_SUPPLY fullLedger = 1" "\<not> openMinting fullLedger"
  "roles fullLedger MINTER_ROLE admin" "\<not> roles fullLedger MINTER_ROLE U1"
  "owners fullLedger 1 = U1" "appId (licenses fullLedger 1) = ''demo''"
  "userAppToken fullLedger U1 (keccak256 demoHost ''demo'') = 1"
  "mintedIds (events fullLedger) = [1]"
  by (simp_all add: run_defs)

lemma demoHost_accepts: "acceptsERC721 demoHost x"
  by (simp add: demoHost_def)


lemma licensed_facts:
  "roles licensed MINTER_ROLE admin" "nextTokenId licensed = 1" "MAX_SUPPLY licensed = 10"
  "userAppToken licensed U1 (keccak256 demoHost ''demo'') = 1"
  by (simp_all add: run_defs)

lemma paired_facts:
  "userAppToken paired U1 (keccak256 demoHost ''demo'') = 1"
  "userAppToken paired U2 (keccak256 demoHost ''demo'') = 2"
  "appId (licenses paired 1) = ''demo''" "owners paired 1 = U1" "owners paired 2 = U2"
  by (simp_all add: run_defs)

lemma crowded_facts:
  "owners crowded 1 = U2" "owners crowded 2 = U2"
  "appId (licenses crowded 1) = ''demo''" "appId (licenses crowded 2) = ''demo''"
  "userAppToken crowded U2 (keccak256 demoHost ''demo'') = 1"
  "userAppToken crowded U1 (keccak256 demoHost ''demo'') = 0"
  by (simp_all add: run_defs)

lemma paired_transfer:
  "transferFrom (beforeTokenTransfer demoHost) paired U1 U1 U2 1 = Inr crowded"
  by (simp add: run_defs)

lemma crowded_transfer:
  "transferFrom (beforeTokenTransfer demoHost) crowded U2 U2 U3 2 = Inr moved"
  by (simp add: run_defs)

lemma moved_facts:
  "owners moved 2 = U3" "userAppToken moved U2 (keccak256 demoHost ''demo'') = 1"
  "userAppToken moved U3 (keccak256 demoHost ''demo'') = 2"
  by (simp_all add: run_defs)

lemma recycled_facts:
  "nextTokenId recycled = 2" "owners recycled 1 = 0" "owners recycled 2 = U1"
  "mintedIds (events recycled) = [1, 2]"
  by (simp_all add: run_defs)

lemma seeded_ids:
  "nextTokenId seeded = 1" "mintedIds (events seeded) = [1]"
  by (simp_all add: run_defs)

lemma demoLedger_mint:
  "mintCollectible demoHost demoLedger admin U1 ''ipfs://demo'' ''demo'' 0 False False 0 0
     = Inr (licensed, 1)"
  by (simp add: run_defs)



lemma orphaned_burn: "burn demoHost crowded U2 2 = Inr orphaned"
  by (simp add: run_defs)

lemma crowded_index: "userAppToken crowded u k \<noteq> 2"
  by (simp add: run_defs)

lemma orphaned_facts:
  "owners orphaned 1 = U2" "appId (licenses orphaned 1) = ''demo''"
  "userAppToken orphaned u k = 0"
  by (simp_all add: run_defs)

lemma replicate_3: "replicate 3 x = [x, x, x]"
  by (simp add: numeral_3_eq_3)

lemma hoard_facts:
  "owners hoard 1 = U1" "owners hoard 2 = U1" "owners hoard 3 = U1"
  "userAppToken hoard w k = 0" "nextTokenId hoard = 3"
  by (simp_all add: replicate_3 run_defs)

section \<open>The claims\<close>

subsection \<open>The index and the registry\<close>

text \<open>
  Claim C1 does not hold of the code. After \<open>U1\<close> and \<open>U2\<close> are each minted a license
  for \<open>''demo''\<close> and \<open>U1\<close> transfers token 1 to \<open>U2\<close>, \<open>U2\<close> owns two live tokens for
  the application; the index names token 1 and no slot names token 2. When \<open>U2\<close> then
  burns token 2, \<^verbatim>\<open>burn\<close> deletes the slot of \<open>U2\<close> although it names token 1: token 1
  stays live with no index entry at all.
\<close>

theorem index_loses_live_token:
  "owners crowded 1 = U2 \<and> appId (licenses crowded 1) = ''demo''
   \<and> owners crowded 2 = U2 \<and> appId (licenses crowded 2) = ''demo''
   \<and> userAppToken crowded U2 (keccak256 demoHost ''demo'') = 1
   \<and> (\<forall>u k. userAppToken crowded u k \<noteq> 2)
   \<and> burn demoHost crowded U2 2 = Inr orphaned
   \<and> owners orphaned 1 = U2 \<and> appId (licenses orphaned 1) = ''demo''
   \<and> (\<forall>u k. userAppToken orphaned u k = 0)"
  by (simp add: crowded_facts crowded_index orphaned_burn orphaned_facts)

subsection \<open>Issuing access\<close>




subsection \<open>Minting a second license\<close>




subsection \<open>The index across a transfer\<close>

text \<open>
  Claim C4, as the code has it. When a transfer of a token with a license (in
  \<^verbatim>\<open>CollectibleLicenseNFT\<close>: with a non-empty application id) succeeds, the slot of
  \<open>to\<close> for the hash of the token's application id holds the token afterwards,
  whatever it held before; the slot of \<open>from\<close>, when \<open>from\<close> and \<open>to\<close> differ, is
  cleared if it held the token and is left as it was if it held another; every other
  slot is untouched. Whether the transfer succeeds does not depend on the index: it
  succeeds exactly when \<open>from\<close> owns the token, \<open>to\<close> is not zero, the caller is the owner
  or approved and (in \<^verbatim>\<open>CollectibleLicenseNFT\<close>) the token is not soulbound.
\<close>

theorem transfer_reindexes:
  "(transferFrom (beforeTokenTransfer h) s sender from to tokenId = Inr s'
      \<and> appId (licenses s tokenId) \<noteq> [] \<longrightarrow>
      owners s' tokenId = to
      \<and> userAppToken s' to (keccak256 h (appId (licenses s tokenId))) = tokenId
      \<and> (from \<noteq> to \<longrightarrow>
           userAppToken s' from (keccak256 h (appId (licenses s tokenId))) =
             (if userAppToken s from (keccak256 h (appId (licenses s tokenId))) = tokenId then 0
              else userAppToken s from (keccak256 h (appId (licenses s tokenId)))))
      \<and> (\<forall>u k. \<not> (k = keccak256 h (appId (licenses s tokenId)) \<and> (u = from \<or> u = to)) \<longrightarrow>
            userAppToken s' u k = userAppToken s u k))
   \<and> (transferFrom (beforeTokenTransfer_ABL h) b sender from to tokenId = Inr b' \<longrightarrow>
      owners b' tokenId = to
      \<and> userAppToken b' to (keccak256 h (appId (licenses b tokenId))) = tokenId
      \<and> (from \<noteq> to \<longrightarrow>
           userAppToken b' from (keccak256 h (appId (licenses b tokenId))) =
             (if userAppToken b from (keccak256 h (appId (licenses b tokenId))) = tokenId then 0
              else userAppToken b from (keccak256 h (appId (licenses b tokenId)))))
      \<and> (\<forall>u k. \<not> (k = keccak256 h (appId (licenses b tokenId)) \<and> (u = from \<or> u = to)) \<longrightarrow>
            userAppToken b' u k = userAppToken b u k))
   \<and> ((\<exists>s'. transferFrom (beforeTokenTransfer h) s sender from to tokenId = Inr s') \<longleftrightarrow>
        owners s tokenId = from \<and> from \<noteq> 0 \<and> to \<noteq> 0
        \<and> isApprovedOrOwner s sender tokenId = Inr True
        \<and> \<not> soulbound (licenses s tokenId))
   \<and> ((\<exists>b'. transferFrom (beforeTokenTransfer_ABL h) b sender from to tokenId = Inr b') \<longleftrightarrow>
        owners b tokenId = from \<and> from \<noteq> 0 \<and> to \<noteq> 0
        \<and> isApprovedOrOwner b sender tokenId = Inr True)"
proof (intro conjI)
  show "transferFrom (beforeTokenTransfer h) s sender from to tokenId = Inr s'
      \<and> appId (licenses s tokenId) \<noteq> [] \<longrightarrow>
      owners s' tokenId = to
      \<and> userAppToken s' to (keccak256 h (appId (licenses s tokenId))) = tokenId
      \<and> (from \<noteq> to \<longrightarrow>
           userAppToken s' from (keccak256 h (appId (licenses s tokenId))) =
             (if userAppToken s from (keccak256 h (appId (licenses s tokenId))) = tokenId then 0
              else userAppToken s from (keccak256 h (appId (licenses s tokenId)))))
      \<and> (\<forall>u k. \<not> (k = keccak256 h (appId (licenses s tokenId)) \<and> (u = from \<or> u = to)) \<longrightarrow>
            userAppToken s' u k = userAppToken s u k)"
    by (auto simp: transferFrom_eq transferred_fields reindex_slot split: if_splits)
  show "transferFrom (beforeTokenTransfer_ABL h) b sender from to tokenId = Inr b' \<longrightarrow>
      owners b' tokenId = to
      \<and> userAppToken b' to (keccak256 h (appId (licenses b tokenId))) = tokenId
      \<and> (from \<noteq> to \<longrightarrow>
           userAppToken b' from (keccak256 h (appId (licenses b tokenId))) =
             (if userAppToken b from (keccak256 h (appId (licenses b tokenId))) = tokenId then 0
              else userAppToken b from (keccak256 h (appId (licenses b tokenId)))))
      \<and> (\<forall>u k. \<not> (k = keccak256 h (appId (licenses b tokenId)) \<and> (u = from \<or> u = to)) \<longrightarrow>
            userAppToken b' u k = userAppToken b u k)"
    by (auto simp: transferFrom_ABL_eq transferred_ABL_fields reindex_slot split: if_splits)
  show "(\<exists>s'. transferFrom (beforeTokenTransfer h) s sender from to tokenId = Inr s') \<longleftrightarrow>
        owners s tokenId = from \<and> from \<noteq> 0 \<and> to \<noteq> 0
        \<and> isApprovedOrOwner s sender tokenId = Inr True
        \<and> \<not> soulbound (licenses s tokenId)"
    by (auto simp: transferFrom_eq isApprovedOrOwner_eq split: if_splits)
  show "(\<exists>b'. transferFrom (beforeTokenTransfer_ABL h) b sender from to tokenId = Inr b') \<longleftrightarrow>
        owners b tokenId = from \<and> from \<noteq> 0 \<and> to \<noteq> 0
        \<and> isApprovedOrOwner b sender tokenId = Inr True"
    by (auto simp: transferFrom_ABL_eq isApprovedOrOwner_eq split: if_splits)
qed

text \<open>
  \<open>U2\<close> holds token 2 for \<open>''demo''\<close>; \<open>U1\<close> transfers token 1, for the same
  application, to \<open>U2\<close>: the transfer goes through and the slot of \<open>U2\<close> now names token 1.
\<close>

theorem transfer_reindexes_witness:
  "userAppToken paired U2 (keccak256 demoHost ''demo'') = 2
   \<and> transferFrom (beforeTokenTransfer demoHost) paired U1 U1 U2 1 = Inr crowded
   \<and> userAppToken crowded U2 (keccak256 demoHost ''demo'') = 1
   \<and> userAppToken crowded U1 (keccak256 demoHost ''demo'') = 0"
  using transfer_reindexes [of demoHost paired U1 U1 U2 1 crowded seeded seeded]
  by (simp add: paired_transfer paired_facts crowded_facts)

text \<open>
  The claim as it was stated, that the slot of \<open>from\<close> is cleared by every successful
  transfer, fails when the slot holds another token: \<open>U2\<close> then passes token 2 on to
  \<open>U3\<close>, and the slot of \<open>U2\<close> still names token 1.
\<close>

theorem transfer_clears_source_counterexample:
  "transferFrom (beforeTokenTransfer demoHost) crowded U2 U2 U3 2 = Inr moved
   \<and> appId (licenses crowded 2) = ''demo''
   \<and> userAppToken moved U2 (keccak256 demoHost ''demo'') = 1"
  by (simp add: crowded_transfer crowded_facts moved_facts)

subsection \<open>Soulbound tokens\<close>

text \<open>
  Claim C5, as the code has it. For every state and every token whose license record
  has the soulbound flag set, no \<^verbatim>\<open>transferFrom\<close> or \<^verbatim>\<open>safeTransferFrom\<close> from a
  nonzero address to a nonzero address succeeds, whoever calls it, and the whole state,
  registry and index included, is the same after the attempt as before. The base
  contract checks that the token exists, that the caller is the owner or approved, and
  that \<open>from\<close> is the owner, in this order, before it enters the hook: an attempt that
  fails one of them gets that check's error (\<open>InvalidTokenId\<close>, \<open>CallerNotApproved\<close>,
  \<open>TransferFromIncorrectOwner\<close>), and an attempt that passes them all fails with
  \<open>SoulboundLocked\<close>, which is what the hook answers whenever it is entered.
\<close>

theorem soulbound_transfer_locked:
  assumes "soulbound (licenses s tokenId)" and "from \<noteq> 0" and "to \<noteq> 0"
  shows
    "beforeTokenTransfer h s from to tokenId = Inl SoulboundLocked
     \<and> transferFrom (beforeTokenTransfer h) s sender from to tokenId =
         Inl (if owners s tokenId = 0 then InvalidTokenId
              else if isApprovedOrOwner s sender tokenId \<noteq> Inr True then CallerNotApproved
              else if owners s tokenId \<noteq> from then TransferFromIncorrectOwner
              else SoulboundLocked)
     \<and> safeTransferFrom h (beforeTokenTransfer h) s sender from to tokenId =
         Inl (if owners s tokenId = 0 then InvalidTokenId
              else if isApprovedOrOwner s sender tokenId \<noteq> Inr True then CallerNotApproved
              else if owners s tokenId \<noteq> from then TransferFromIncorrectOwner
              else SoulboundLocked)
     \<and> exec h s (TransferFrom sender from to tokenId) = s
     \<and> exec h s (SafeTransferFrom sender from to tokenId) = s"
  using assms
  by (simp add: beforeTokenTransfer_def transferFrom_eq safeTransferFrom_eq isApprovedOrOwner_eq exec_def)

text \<open>On the ledger \<open>flagged\<close>, \<open>U1\<close> cannot transfer the soulbound token 1 to \<open>U2\<close>.\<close>

theorem soulbound_transfer_locked_witness:
  "beforeTokenTransfer demoHost flagged U1 U2 1 = Inl SoulboundLocked
   \<and> transferFrom (beforeTokenTransfer demoHost) flagged U1 U1 U2 1 = Inl SoulboundLocked
   \<and> exec demoHost flagged (TransferFrom U1 U1 U2 1) = flagged"
  using soulbound_transfer_locked [of flagged 1 U1 U2 demoHost U1]
  by (simp add: flagged_facts isApprovedOrOwner_eq approved_def U1_def U2_def)

text \<open>
  The claim as it was stated, with \<open>SoulboundLocked\<close> for every attempt, fails on the
  ledger \<open>flagged\<close>, where \<open>U1\<close> owns the soulbound token 1: \<open>U3\<close>, who is neither the
  owner nor approved, is refused as such, and \<open>U1\<close> naming \<open>U2\<close> as the sender is told
  that \<open>U2\<close> is not the owner.
\<close>

theorem soulbound_transfer_error_counterexample:
  "soulbound (licenses flagged 1)
   \<and> transferFrom (beforeTokenTransfer demoHost) flagged U3 U1 U2 1 = Inl CallerNotApproved
   \<and> transferFrom (beforeTokenTransfer demoHost) flagged U1 U2 U3 1
       = Inl TransferFromIncorrectOwner"
  by (simp add: transferFrom_eq approved_def flagged_facts flagged_approvals accounts_distinct)

subsection \<open>Redeem\<close>

text \<open>
  Claim C6. For a token that exists, with \<open>holder\<close> its current owner: if it is
  ephemeral and not yet redeemed, \<^verbatim>\<open>redeem\<close> called by the holder succeeds and sets the
  redeemed flag, and the same call made again at once fails with \<open>AlreadyRedeemed\<close>;
  \<^verbatim>\<open>redeem\<close> called by anyone else fails with \<open>NotOwner\<close>; \<^verbatim>\<open>redeem\<close> of a token
  that is not ephemeral fails with \<open>NotEphemeral\<close>. Each failing call leaves the
  redeemed flags as they were.
\<close>

theorem redeem_once:
  assumes "owners s tokenId = holder" and "holder \<noteq> 0"
  shows
    "(ephemeral (licenses s tokenId) \<and> \<not> redeemed s tokenId \<longrightarrow>
        redeem s holder tokenId =
          Inr (s\<lparr>redeemed := (redeemed s)(tokenId := True),
                 events := events s @ [Redeemed holder tokenId]\<rparr>)
        \<and> redeemed (exec h s (Redeem holder tokenId)) tokenId
        \<and> redeem (exec h s (Redeem holder tokenId)) holder tokenId = Inl AlreadyRedeemed
        \<and> redeemed (exec h (exec h s (Redeem holder tokenId)) (Redeem holder tokenId))
            = redeemed (exec h s (Redeem holder tokenId)))
     \<and> (caller \<noteq> holder \<longrightarrow>
          redeem s caller tokenId = Inl NotOwner
          \<and> redeemed (exec h s (Redeem caller tokenId)) = redeemed s)
     \<and> (\<not> ephemeral (licenses s tokenId) \<longrightarrow>
          redeem s holder tokenId = Inl NotEphemeral
          \<and> redeemed (exec h s (Redeem holder tokenId)) = redeemed s)"
  using assms by (auto simp: redeem_def ownerOf_def exec_def Let_def)

text \<open>
  On the ledger \<open>flagged\<close>: \<open>U2\<close> redeems the ephemeral token 2 once and not twice,
  \<open>U1\<close> cannot redeem it, and \<open>U1\<close>'s own token 1 is not ephemeral.
\<close>

theorem redeem_once_witness:
  "redeem flagged U2 2 =
     Inr (flagged\<lparr>redeemed := (redeemed flagged)(2 := True),
                  events := events flagged @ [Redeemed U2 2]\<rparr>)
   \<and> redeem (exec demoHost flagged (Redeem U2 2)) U2 2 = Inl AlreadyRedeemed
   \<and> redeem flagged U1 2 = Inl NotOwner
   \<and> redeem flagged U1 1 = Inl NotEphemeral"
  using redeem_once [of flagged 2 U2 demoHost U1] redeem_once [of flagged 1 U1 demoHost U2]
  by (simp add: flagged_facts U1_def U2_def)

subsection \<open>Token ids\<close>

text \<open>
  Claim C7. In every state reachable from a deployment of either contract, the ids that
  were ever allocated, in the order of allocation, are 1, 2, ..., \<^verbatim>\<open>nextTokenId\<close>: they
  start at 1, each is one more than the one before, none occurs twice (so none is used
  again after a burn), 0 is not among them, and no token has id 0. Each successful
  \<^verbatim>\<open>mintCollectible\<close>, \<^verbatim>\<open>openMint\<close> and \<^verbatim>\<open>mintTo\<close> returns the id one above the
  last allocated id \<^verbatim>\<open>nextTokenId\<close> and stores it there.
\<close>

theorem token_ids_sequential:
  "(constructor_Collectible d m r f = Inr s0 \<longrightarrow>
      mintedIds (events (run h s0 cs)) = map of_nat [1..<Suc (unat (nextTokenId (run h s0 cs)))]
      \<and> distinct (mintedIds (events (run h s0 cs)))
      \<and> 0 \<notin> set (mintedIds (events (run h s0 cs)))
      \<and> owners (run h s0 cs) 0 = 0)
   \<and> mintedIds (events (run_ABL h (constructor_AppBound d) cs')) =
        map of_nat [1..<Suc (unat (nextTokenId (run_ABL h (constructor_AppBound d) cs')))]
   \<and> distinct (mintedIds (events (run_ABL h (constructor_AppBound d) cs')))
   \<and> 0 \<notin> set (mintedIds (events (run_ABL h (constructor_AppBound d) cs')))
   \<and> owners (run_ABL h (constructor_AppBound d) cs') 0 = 0
   \<and> (mintCollectible h s sender to u a e sb ep rr rf = Inr (s', t) \<longrightarrow>
        unat t = unat (nextTokenId s) + 1 \<and> nextTokenId s' = t)
   \<and> (openMint h s sender u a e sb ep pf = Inr (s', t) \<longrightarrow>
        unat t = unat (nextTokenId s) + 1 \<and> nextTokenId s' = t)
   \<and> (mintTo h b sender to a u e = Inr (b', t) \<longrightarrow>
        unat t = unat (nextTokenId b) + 1 \<and> nextTokenId b' = t)"
proof (intro conjI impI)
  assume dep: "constructor_Collectible d m r f = Inr s0"
  let ?s = "run h s0 cs"
  have inv: "ledger_inv h ?s"
    by (rule run_inv [OF constructor_inv [OF dep]])
  then have sq: "mintedIds (events ?s) = firstIds (nextTokenId ?s)" and tb: "tokens_bounded ?s"
    by (simp_all add: ledger_inv_def ids_sequential_def)
  from sq show "mintedIds (events ?s) = map of_nat [1..<Suc (unat (nextTokenId ?s))]"
    by (simp add: firstIds_def)
  from sq show "distinct (mintedIds (events ?s))" by (simp add: distinct_firstIds)
  from sq show "0 \<notin> set (mintedIds (events ?s))" by (simp add: zero_notin_firstIds)
  from tb show "owners ?s 0 = 0" unfolding tokens_bounded_def by blast
next
  let ?b = "run_ABL h (constructor_AppBound d) cs'"
  have inv: "ledger_inv_ABL h ?b"
    by (rule run_ABL_inv [OF constructor_ABL_inv])
  then have sq: "mintedIds (events ?b) = firstIds (nextTokenId ?b)" and tb: "tokens_bounded ?b"
    by (simp_all add: ledger_inv_ABL_def ids_sequential_def)
  from sq show "mintedIds (events ?b) = map of_nat [1..<Suc (unat (nextTokenId ?b))]"
    by (simp add: firstIds_def)
  from sq show "distinct (mintedIds (events ?b))" by (simp add: distinct_firstIds)
  from sq show "0 \<notin> set (mintedIds (events ?b))" by (simp add: zero_notin_firstIds)
  from tb show "owners ?b 0 = 0" unfolding tokens_bounded_def by blast
next
  assume ok: "mintCollectible h s sender to u a e sb ep rr rf = Inr (s', t)"
  then have "nextTokenId s \<noteq> - 1" "t = nextTokenId s + 1" "s' = minted h s to u a e sb ep rr rf"
    by (auto simp: mintCollectible_eq split: if_splits dest: less_not_max)
  then show "unat t = unat (nextTokenId s) + 1" "nextTokenId s' = t"
    by (simp_all add: unat_increment minted_fields)
next
  assume ok: "openMint h s sender u a e sb ep pf = Inr (s', t)"
  then have "nextTokenId s \<noteq> - 1" "t = nextTokenId s + 1" "s' = minted h s sender u a e sb ep 0 0"
    by (auto simp: openMint_eq split: if_splits dest: less_not_max)
  then show "unat t = unat (nextTokenId s) + 1" "nextTokenId s' = t"
    by (simp_all add: unat_increment minted_fields)
next
  assume ok: "mintTo h b sender to a u e = Inr (b', t)"
  then have "nextTokenId b \<noteq> - 1" "t = nextTokenId b + 1" "b' = minted_ABL h b to a u e"
    by (auto simp: mintTo_eq split: if_splits)
  then show "unat t = unat (nextTokenId b) + 1" "nextTokenId b' = t"
    by (simp_all add: unat_increment minted_ABL_fields)
qed

text \<open>
  On \<open>recycled\<close>, token 1 was burnt before the second mint, which got id 2; the seeded
  \<^verbatim>\<open>AppBoundLicense\<close> ledger allocated id 1; the first mint on \<open>demoLedger\<close> returns 1.
\<close>

theorem token_ids_sequential_witness:
  "mintedIds (events recycled) = [1, 2] \<and> owners recycled 1 = 0 \<and> owners recycled 2 = U1
   \<and> owners recycled 0 = 0
   \<and> mintedIds (events seeded) = [1]
   \<and> mintCollectible demoHost demoLedger admin U1 ''ipfs://demo'' ''demo'' 0 False False 0 0
       = Inr (licensed, 1)
   \<and> nextTokenId licensed = 1"
  using token_ids_sequential [where d = admin and m = 10 and r = admin and f = 0
      and ?s0.0 = demoLedger and h = demoHost and cs = "[mintDemo U1, Burn U1 1, mintDemo U1]"
      and cs' = "[MintTo admin U1 ''demo-app'' ''ipfs://demo-metadata'' 1000]"
      and s = demoLedger and sender = admin and to = U1 and u = "''ipfs://demo''"
      and a = "''demo''" and e = 0 and sb = False and ep = False and rr = 0 and rf = 0
      and s' = licensed and t = 1 and pf = "[]" and b = seeded and b' = seeded]
  by (simp add: demoLedger_deployed demoLedger_mint recycled_facts seeded_ids licensed_facts
      recycled_def [symmetric] seeded_def [symmetric])

subsection \<open>The supply cap\<close>

text \<open>
  Claim C8, as the code has it. In every state in which \<^verbatim>\<open>nextTokenId\<close> is not below
  \<^verbatim>\<open>MAX_SUPPLY\<close>, \<^verbatim>\<open>mintCollectible\<close> and \<^verbatim>\<open>openMint\<close> fail and allocate nothing:
  the state is unchanged. The error is \<open>CapacityExceeded\<close> when the call passes the gate
  that comes first (the minter role for \<^verbatim>\<open>mintCollectible\<close>, the open-minting switch
  for \<^verbatim>\<open>openMint\<close>), and the error of that gate otherwise. In every state reachable
  from a deployment with maximum supply \<open>m\<close>, \<^verbatim>\<open>nextTokenId\<close> is at most \<open>m\<close> and
  counts the tokens ever minted.
\<close>

theorem supply_cap_enforced:
  "(\<not> nextTokenId s < MAX_SUPPLY s \<longrightarrow>
      mintCollectible h s sender to u a e sb ep rr rf =
        Inl (if roles s MINTER_ROLE sender then CapacityExceeded else Unauthorized)
      \<and> openMint h s sender u a e sb ep pf =
        Inl (if openMinting s then CapacityExceeded else OpenMintingDisabled)
      \<and> exec h s (MintCollectible sender to u a e sb ep rr rf) = s
      \<and> exec h s (OpenMint sender u a e sb ep pf) = s)
   \<and> (constructor_Collectible d m r f = Inr s0 \<longrightarrow>
      nextTokenId (run h s0 cs) \<le> m
      \<and> length (mintedIds (events (run h s0 cs))) = unat (nextTokenId (run h s0 cs))
      \<and> length (mintedIds (events (run h s0 cs))) \<le> unat m)"
proof (intro conjI impI)
  assume full: "\<not> nextTokenId s < MAX_SUPPLY s"
  show "mintCollectible h s sender to u a e sb ep rr rf =
        Inl (if roles s MINTER_ROLE sender then CapacityExceeded else Unauthorized)"
    using full by (simp add: mintCollectible_eq)
  then show "exec h s (MintCollectible sender to u a e sb ep rr rf) = s"
    by (simp add: exec_def)
  show "openMint h s sender u a e sb ep pf =
        Inl (if openMinting s then CapacityExceeded else OpenMintingDisabled)"
    using full by (simp add: openMint_eq)
  then show "exec h s (OpenMint sender u a e sb ep pf) = s"
    by (simp add: exec_def)
next
  assume dep: "constructor_Collectible d m r f = Inr s0"
  let ?s = "run h s0 cs"
  have inv: "ledger_inv h ?s"
    using dep by (intro run_inv constructor_inv)
  have cap: "MAX_SUPPLY ?s = m"
    using dep by (simp add: run_MAX_SUPPLY constructor_MAX_SUPPLY)
  show le: "nextTokenId ?s \<le> m"
    using inv cap by (simp add: ledger_inv_def)
  show len: "length (mintedIds (events ?s)) = unat (nextTokenId ?s)"
    using inv by (simp add: ledger_inv_def ids_sequential_def length_firstIds)
  show "length (mintedIds (events ?s)) \<le> unat m"
    using le len by (simp add: word_le_nat_alt)
qed

text \<open>The ledger \<open>fullLedger\<close> has room for one token and holds one.\<close>

theorem supply_cap_enforced_witness:
  "mintCollectible demoHost fullLedger admin U2 ''ipfs://2'' ''other'' 0 False False 0 0
     = Inl CapacityExceeded
   \<and> exec demoHost fullLedger (mintDemo U2) = fullLedger
   \<and> nextTokenId fullLedger \<le> 1
   \<and> length (mintedIds (events fullLedger)) = 1"
  using supply_cap_enforced [of fullLedger demoHost admin U2 "''ipfs://2''" "''other''" 0 False False 0 0
      "[]" admin 1 admin 0 smallLedger "[mintDemo U1]"]
    supply_cap_enforced [of fullLedger demoHost admin U2 "''ipfs://demo''" "''demo''" 0 False False 0 0
      "[]" admin 1 admin 0 smallLedger "[mintDemo U1]"]
  by (simp add: fullLedger_facts smallLedger_deployed mintDemo_def fullLedger_def [symmetric])

text \<open>
  The claim as it was stated, with \<open>CapacityExceeded\<close> for every attempt, fails on the
  full ledger: open minting is switched off there, and \<open>U1\<close> is no minter.
\<close>

theorem supply_cap_error_counterexample:
  "\<not> nextTokenId fullLedger < MAX_SUPPLY fullLedger
   \<and> openMint demoHost fullLedger U2 ''ipfs://2'' ''other'' 0 False False [] = Inl OpenMintingDisabled
   \<and> mintCollectible demoHost fullLedger U1 U2 ''ipfs://2'' ''other'' 0 False False 0 0 = Inl Unauthorized"
  by (simp add: openMint_eq mintCollectible_eq fullLedger_facts)

subsection \<open>Batch minting\<close>

text \<open>
  Claim C9, as the code has it. A \<^verbatim>\<open>batchMint\<close> call whose eight arrays do not all
  have the same length fails before any mutation, and the state is unchanged: with
  \<open>ArityMismatch\<close> when the caller holds the minter role, with \<open>Unauthorized\<close> when
  not, since the role is checked first.
\<close>

theorem batchMint_arity_checked:
  assumes "\<not> (length recipients = length uris \<and> length uris = length appIds
            \<and> length appIds = length expiries \<and> length expiries = length soulbounds
            \<and> length soulbounds = length ephemerals \<and> length ephemerals = length royaltyReceivers
            \<and> length royaltyReceivers = length royaltyFractions)"
  shows
    "batchMint h s sender recipients uris appIds expiries soulbounds ephemerals
         royaltyReceivers royaltyFractions
       = Inl (if roles s MINTER_ROLE sender then ArityMismatch else Unauthorized)
     \<and> exec h s (BatchMint sender recipients uris appIds expiries soulbounds ephemerals
                    royaltyReceivers royaltyFractions) = s"
  using assms by (simp add: batchMint_def exec_def)

theorem batchMint_arity_checked_witness:
  "batchMint demoHost demoLedger admin [U1, U2] [''ipfs://1''] [''demo'', ''demo''] [0, 0]
       [False, False] [False, False] [0, 0] [0, 0] = Inl ArityMismatch
   \<and> exec demoHost demoLedger (BatchMint admin [U1, U2] [''ipfs://1''] [''demo'', ''demo''] [0, 0]
       [False, False] [False, False] [0, 0] [0, 0]) = demoLedger"
  using batchMint_arity_checked [of "[U1, U2]" "[''ipfs://1'']" "[''demo'', ''demo'']" "[0, 0]"
      "[False, False]" "[False, False]" "[0, 0]" "[0, 0]" demoHost demoLedger admin]
  by (simp add: demoLedger_facts)

text \<open>The claim as it was stated fails for a caller without the minter role.\<close>

theorem batchMint_arity_counterexample:
  "batchMint demoHost demoLedger U1 [U1, U2] [''ipfs://1''] [''demo'', ''demo''] [0, 0]
       [False, False] [False, False] [0, 0] [0, 0] = Inl Unauthorized"
  by (simp add: batchMint_def demoLedger_facts)

subsection \<open>Minting with the empty application id\<close>

text \<open>
  Claim C10. With the empty string for the application id, \<^verbatim>\<open>mintCollectible\<close> and
  \<^verbatim>\<open>openMint\<close> skip the license block: whether the mint succeeds is decided without
  reading the index (no duplicate check), and a successful mint changes neither
  \<^verbatim>\<open>licenses\<close> nor \<^verbatim>\<open>userAppToken\<close> and logs the \<^verbatim>\<open>Transfer\<close> of the mint only,
  no \<^verbatim>\<open>LicenseMinted\<close>. So, from any reachable state, a minter can mint to one owner
  as many such tokens in a row as the remaining supply allows: all \<open>n\<close> mints succeed,
  the owner holds the \<open>n\<close> new tokens, the index and the license table are as before,
  and no index slot, no result of \<^verbatim>\<open>checkLicense\<close> and no credential of \<open>issueAccess\<close>
  names any of the new tokens.
\<close>

theorem unlicensed_mint:
  "mintCollectible h s sender to u [] e sb ep rr rf =
     (if \<not> roles s MINTER_ROLE sender then Inl Unauthorized
      else if \<not> nextTokenId s < MAX_SUPPLY s then Inl CapacityExceeded
      else if to = 0 then Inl MintToZeroAddress
      else if owners s (nextTokenId s + 1) \<noteq> 0 then Inl TokenAlreadyMinted
      else if \<not> acceptsERC721 h to then Inl NonReceiver
      else if rr \<noteq> 0 \<and> 10000 < rf then Inl RoyaltyFeeTooHigh
      else Inr (s\<lparr>nextTokenId := nextTokenId s + 1,
                  owners := (owners s)(nextTokenId s + 1 := to),
                  tokenURIs := (tokenURIs s)(nextTokenId s + 1 := u),
                  events := events s @ [Transfer 0 to (nextTokenId s + 1)],
                  tokenRoyalty := (if rr = 0 then tokenRoyalty s
                                   else (tokenRoyalty s)(nextTokenId s + 1 := (rr, rf)))\<rparr>,
                nextTokenId s + 1))
   \<and> openMint h s sender u [] e sb ep pf =
     (if \<not> openMinting s then Inl OpenMintingDisabled
      else if \<not> nextTokenId s < MAX_SUPPLY s then Inl CapacityExceeded
      else if merkleRoot s \<noteq> 0
              \<and> \<not> MerkleProof_verify h pf (merkleRoot s) (keccak256 h (encodePacked sender))
        then Inl NotAllowlisted
      else if sender = 0 then Inl MintToZeroAddress
      else if owners s (nextTokenId s + 1) \<noteq> 0 then Inl TokenAlreadyMinted
      else if \<not> acceptsERC721 h sender then Inl NonReceiver
      else Inr (s\<lparr>nextTokenId := nextTokenId s + 1,
                  owners := (owners s)(nextTokenId s + 1 := sender),
                  tokenURIs := (tokenURIs s)(nextTokenId s + 1 := u),
                  events := events s @ [Transfer 0 sender (nextTokenId s + 1)]\<rparr>,
                nextTokenId s + 1))
   \<and> (constructor_Collectible d m r f = Inr s0 \<and> roles (run h s0 cs) MINTER_ROLE sender
       \<and> to \<noteq> 0 \<and> acceptsERC721 h to \<and> unat (nextTokenId (run h s0 cs)) + n \<le> unat m \<longrightarrow>
       unat (nextTokenId (run h (run h s0 cs)
              (replicate n (MintCollectible sender to u [] e sb ep 0 0))))
         = unat (nextTokenId (run h s0 cs)) + n
       \<and> userAppToken (run h (run h s0 cs)
              (replicate n (MintCollectible sender to u [] e sb ep 0 0)))
           = userAppToken (run h s0 cs)
       \<and> licenses (run h (run h s0 cs)
              (replicate n (MintCollectible sender to u [] e sb ep 0 0)))
           = licenses (run h s0 cs)
       \<and> (\<forall>t :: uint256. unat (nextTokenId (run h s0 cs)) < unat t
               \<and> unat t \<le> unat (nextTokenId (run h s0 cs)) + n \<longrightarrow>
             owners (run h (run h s0 cs)
                (replicate n (MintCollectible sender to u [] e sb ep 0 0))) t = to
             \<and> (\<forall>w k. userAppToken (run h (run h s0 cs)
                   (replicate n (MintCollectible sender to u [] e sb ep 0 0))) w k \<noteq> t)
             \<and> (\<forall>w a uri x. checkLicense h (run h (run h s0 cs)
                   (replicate n (MintCollectible sender to u [] e sb ep 0 0))) w a
                     \<noteq> Inr (t, uri, x))
             \<and> (\<forall>now w a w' a'. issueAccess h (run h (run h s0 cs)
                   (replicate n (MintCollectible sender to u [] e sb ep 0 0))) now w a
                     \<noteq> Credential w' a' t)))"
proof (intro conjI impI)
  show "mintCollectible h s sender to u [] e sb ep rr rf =
     (if \<not> roles s MINTER_ROLE sender then Inl Unauthorized
      else if \<not> nextTokenId s < MAX_SUPPLY s then Inl CapacityExceeded
      else if to = 0 then Inl MintToZeroAddress
      else if owners s (nextTokenId s + 1) \<noteq> 0 then Inl TokenAlreadyMinted
      else if \<not> acceptsERC721 h to then Inl NonReceiver
      else if rr \<noteq> 0 \<and> 10000 < rf then Inl RoyaltyFeeTooHigh
      else Inr (s\<lparr>nextTokenId := nextTokenId s + 1,
                  owners := (owners s)(nextTokenId s + 1 := to),
                  tokenURIs := (tokenURIs s)(nextTokenId s + 1 := u),
                  events := events s @ [Transfer 0 to (nextTokenId s + 1)],
                  tokenRoyalty := (if rr = 0 then tokenRoyalty s
                                   else (tokenRoyalty s)(nextTokenId s + 1 := (rr, rf)))\<rparr>,
                nextTokenId s + 1))"
    by (simp add: mintCollectible_eq minted_def Let_def)
  show "openMint h s sender u [] e sb ep pf =
     (if \<not> openMinting s then Inl OpenMintingDisabled
      else if \<not> nextTokenId s < MAX_SUPPLY s then Inl CapacityExceeded
      else if merkleRoot s \<noteq> 0
              \<and> \<not> MerkleProof_verify h pf (merkleRoot s) (keccak256 h (encodePacked sender))
        then Inl NotAllowlisted
      else if sender = 0 then Inl MintToZeroAddress
      else if owners s (nextTokenId s + 1) \<noteq> 0 then Inl TokenAlreadyMinted
      else if \<not> acceptsERC721 h sender then Inl NonReceiver
      else Inr (s\<lparr>nextTokenId := nextTokenId s + 1,
                  owners := (owners s)(nextTokenId s + 1 := sender),
                  tokenURIs := (tokenURIs s)(nextTokenId s + 1 := u),
                  events := events s @ [Transfer 0 sender (nextTokenId s + 1)]\<rparr>,
                nextTokenId s + 1))"
    by (simp add: openMint_eq minted_def Let_def)
next
  let ?s = "run h s0 cs"
  let ?g = "run h ?s (replicate n (MintCollectible sender to u [] e sb ep 0 0))"
  assume asm: "constructor_Collectible d m r f = Inr s0 \<and> roles ?s MINTER_ROLE sender
       \<and> to \<noteq> 0 \<and> acceptsERC721 h to \<and> unat (nextTokenId ?s) + n \<le> unat m"
  then have dep: "constructor_Collectible d m r f = Inr s0" by simp
  have inv: "ledger_inv h ?s" by (rule run_inv [OF constructor_inv [OF dep]])
  have cap: "MAX_SUPPLY ?s = m" using dep by (simp add: run_MAX_SUPPLY constructor_MAX_SUPPLY)
  from asm cap have "unat (nextTokenId ?s) + n \<le> unat (MAX_SUPPLY ?s)" by simp
  from hoarding [OF inv _ _ _ this, of sender to u e sb ep] asm
  have g: "ledger_inv h ?g" "unat (nextTokenId ?g) = unat (nextTokenId ?s) + n"
    "userAppToken ?g = userAppToken ?s" "licenses ?g = licenses ?s"
    "\<And>t. owners ?g t = (if unat (nextTokenId ?s) < unat t \<and> unat t \<le> unat (nextTokenId ?s) + n
        then to else owners ?s t)"
    by simp_all
  show "unat (nextTokenId ?g) = unat (nextTokenId ?s) + n" by (rule g(2))
  show "userAppToken ?g = userAppToken ?s" by (rule g(3))
  show "licenses ?g = licenses ?s" by (rule g(4))
  show "\<forall>t :: uint256. unat (nextTokenId ?s) < unat t \<and> unat t \<le> unat (nextTokenId ?s) + n \<longrightarrow>
             owners ?g t = to
             \<and> (\<forall>w k. userAppToken ?g w k \<noteq> t)
             \<and> (\<forall>w a uri x. checkLicense h ?g w a \<noteq> Inr (t, uri, x))
             \<and> (\<forall>now w a w' a'. issueAccess h ?g now w a \<noteq> Credential w' a' t)"
  proof (intro allI impI)
    fix t :: uint256
    assume new: "unat (nextTokenId ?s) < unat t \<and> unat t \<le> unat (nextTokenId ?s) + n"
    have hidden: "userAppToken ?g w k \<noteq> t" for w k
      unfolding g(3) using inv new by (intro index_bounded) simp_all
    have "owners ?g t = to" using new by (simp add: g(5))
    moreover have "\<forall>w k. userAppToken ?g w k \<noteq> t" using hidden by blast
    moreover have "\<forall>w a uri x. checkLicense h ?g w a \<noteq> Inr (t, uri, x)"
      using hidden by (metis checkLicense_tokenId)
    moreover have "\<forall>now w a w' a'. issueAccess h ?g now w a \<noteq> Credential w' a' t"
      using hidden by (metis issueAccess_tokenId)
    ultimately show "owners ?g t = to
             \<and> (\<forall>w k. userAppToken ?g w k \<noteq> t)
             \<and> (\<forall>w a uri x. checkLicense h ?g w a \<noteq> Inr (t, uri, x))
             \<and> (\<forall>now w a w' a'. issueAccess h ?g now w a \<noteq> Credential w' a' t)"
      by blast
  qed
qed

text \<open>
  Three such mints to \<open>U1\<close> on the fresh ledger: \<open>U1\<close> owns tokens 1, 2 and 3, the index
  is as empty as before, and \<open>issueAccess\<close> finds no license.
\<close>

theorem unlicensed_mint_witness:
  "owners hoard 1 = U1 \<and> owners hoard 2 = U1 \<and> owners hoard 3 = U1
   \<and> userAppToken hoard = userAppToken demoLedger
   \<and> issueAccess demoHost hoard 0 U1 ''demo'' = NoLicense"
proof -
  have pre: "constructor_Collectible admin 10 admin 0 = Inr demoLedger
      \<and> roles (run demoHost demoLedger []) MINTER_ROLE admin \<and> U1 \<noteq> 0
      \<and> acceptsERC721 demoHost U1 \<and> unat (nextTokenId (run demoHost demoLedger [])) + 3 \<le> unat (10 :: uint256)"
    by (simp add: demoLedger_deployed demoLedger_facts demoHost_accepts run_def U1_def)
  from unlicensed_mint [where d = admin and m = 10 and r = admin and f = 0 and ?s0.0 = demoLedger
      and h = demoHost and cs = "[]" and sender = admin and to = U1 and n = 3
      and u = "''ipfs://art''" and e = 0 and sb = True and ep = True] pre
  have "userAppToken hoard = userAppToken demoLedger"
    by (simp add: hoard_def run_def)
  moreover have "userAppToken demoLedger U1 (keccak256 demoHost ''demo'') = 0"
    by (simp add: run_defs)
  ultimately show ?thesis
    by (simp add: hoard_facts issueAccess_def)
qed

end
